theory Spec2Isabelle
  imports Main "HOL-Library.Sublist"
begin

section \<open>Strings\<close>

text \<open>
  A Python \<^verbatim>\<open>str\<close> is a sequence of Unicode code points and \<^verbatim>\<open>len\<close> counts code
  points, so a string is modelled as the list of its code points. Literals of the
  source are written through \<open>py\<close>; the few characters outside ASCII are given by
  their code point.
\<close>

type_synonym pystr = "nat list"

definition py :: "string \<Rightarrow> pystr" where
  "py s = map of_char s"

text \<open>
  \<^verbatim>\<open>str.lower\<close>. Only the ASCII letters are mapped here. Python also maps letters
  outside ASCII, but every keyword that is searched in a lowered text below is ASCII,
  and no keyword has a \<^verbatim>\<open>k\<close> or ends in \<^verbatim>\<open>i\<close>, the only ASCII letters that Python's
  mapping produces from a character outside ASCII (U+212A, and U+0130 which becomes
  \<^verbatim>\<open>i\<close> followed by U+0307); so the substring tests agree.
\<close>

definition lower_char :: "nat \<Rightarrow> nat" where
  "lower_char c = (if 65 \<le> c \<and> c \<le> 90 then c + 32 else c)"

definition lower :: "pystr \<Rightarrow> pystr" where
  "lower s = map lower_char s"

text \<open>The characters that \<^verbatim>\<open>str.strip()\<close> removes: those for which \<^verbatim>\<open>str.isspace\<close> holds.\<close>

definition isspace :: "nat \<Rightarrow> bool" where
  "isspace c \<longleftrightarrow>
     (9 \<le> c \<and> c \<le> 13) \<or> (28 \<le> c \<and> c \<le> 32) \<or> c = 133 \<or> c = 160 \<or> c = 5760 \<or>
     (8192 \<le> c \<and> c \<le> 8202) \<or> c = 8232 \<or> c = 8233 \<or> c = 8239 \<or> c = 8287 \<or> c = 12288"

definition strip :: "pystr \<Rightarrow> pystr" where
  "strip s = rev (dropWhile isspace (rev (dropWhile isspace s)))"

text \<open>\<^verbatim>\<open>kw in s\<close> on strings: \<open>kw\<close> occurs in \<open>s\<close> as a contiguous run.\<close>

fun str_in :: "pystr \<Rightarrow> pystr \<Rightarrow> bool" where
  "str_in kw [] = (kw = [])"
| "str_in kw (c # cs) = (prefix kw (c # cs) \<or> str_in kw cs)"

text \<open>\<^verbatim>\<open>s.split('/')[0]\<close>: the text before the first slash.\<close>

definition before_slash :: "pystr \<Rightarrow> pystr" where
  "before_slash s = takeWhile (\<lambda>c. c \<noteq> 47) s"

text \<open>\<^verbatim>\<open>str(n)\<close> of a natural number, as interpolated by the f-strings.\<close>

fun str_nat :: "nat \<Rightarrow> pystr" where
  "str_nat n = (if n < 10 then [48 + n] else str_nat (n div 10) @ [48 + n mod 10])"

section \<open>Comparison detection and the prompts of a solution request\<close>

text \<open>The list \<^verbatim>\<open>keywords\<close> of \<^verbatim>\<open>is_comparison_question\<close> (\<open>keywords\<close> is reserved in Isabelle).\<close>

definition comparison_keywords :: "pystr list" where
  "comparison_keywords = [py ''compare'', py ''difference'', py ''distinguish'', py ''versus'',
     py '' vs '', py ''differentiate'', py ''comparison'', py ''similarities'',
     py ''contrast'']"

definition is_comparison_question :: "pystr \<Rightarrow> bool" where
  "is_comparison_question text =
     (let text_lower = lower text in list_ex (\<lambda>keyword. str_in keyword text_lower) comparison_keywords)"

datatype role = System | User

record message =
  role :: role
  content :: pystr

definition table_instruction :: pystr where
  "table_instruction =
     [10, 10, 128680] @ py '' **MANDATORY FORMATTING FOR THIS QUESTION** '' @ [128680, 10] @
     py ''This question asks for a COMPARISON or DIFFERENCE.\<newline>'' @
     py ''1. You MUST present the core differences in a **Markdown Table**.\<newline>'' @
     py ''2. The table must have clear columns (e.g., Parameter | Concept A | Concept B).\<newline>'' @
     py ''3. Do NOT write the differences as paragraphs. Use the table.''"

definition core_rules :: pystr where
  "core_rules =
     py ''You are an expert Engineering Professor for Sant Gadge Baba Amravati University.\<newline>'' @
     py ''Your task is to write detailed, academic exam solutions.\<newline>\<newline>'' @
     py ''**CORE RULES (STRICT ADHERENCE REQUIRED):**\<newline>'' @
     py ''1. **NO REPETITION:** Do NOT repeat the question. Do NOT output your internal instructions. Start the answer immediately.\<newline>'' @
     py ''2. **MATH FORMATTING:** Use `$$` for ALL distinct equations. \<newline>'' @
     py ''   - Syntax: `$$ equation $$` (with blank lines before and after).\<newline>'' @
     py ''   - NEVER use inline math `$` for formulas.\<newline>'' @
     py ''3. **DERIVATIONS:** Show every step clearly on new lines.\<newline>'' @
     py ''4. **STRUCTURE:** Use `## Headings` and bullet points.\<newline>'' @
     py ''5. **DIAGRAMS:** If needed, use Mermaid.js syntax inside ```mermaid blocks.\<newline>''"

definition system_prompt :: "pystr \<Rightarrow> pystr" where
  "system_prompt question_text =
     (let is_comparison = is_comparison_question question_text;
          formatting_override = (if is_comparison then table_instruction else [])
      in core_rules @ formatting_override)"

text \<open>
  The depth of the answer. A history entry is its \<^verbatim>\<open>marks\<close> value, an integer, \<open>None\<close>
  when the key is missing (\<^verbatim>\<open>h.get('marks', 7)\<close>). \<^verbatim>\<open>sum(marks_list) / len(marks_list)\<close>
  is the quotient of two integers rounded to the nearest double, ties to even, and it
  raises \<^verbatim>\<open>OverflowError\<close> when the quotient rounds beyond the largest double, that is
  when its absolute value is at least \<open>2^1024 - 2^970\<close>; the bare \<^verbatim>\<open>except\<close> then
  leaves \<^verbatim>\<open>avg_marks = 7\<close>. The rounded mean is below 5 exactly when the quotient is below
  \<open>5 - 2^-51\<close>, and above 10 exactly when the quotient is above \<open>10 + 2^-50\<close> (the
  midpoints next to 5 and 10, which round to 5 and 10). The tests are written on
  integers, multiplied out by the length.
\<close>

definition mean_overflows :: "int \<Rightarrow> int \<Rightarrow> bool" where
  "mean_overflows sm n \<longleftrightarrow> \<bar>sm\<bar> \<ge> (2 ^ 1024 - 2 ^ 970) * n"

definition mean_below_5 :: "int \<Rightarrow> int \<Rightarrow> bool" where
  "mean_below_5 sm n \<longleftrightarrow> sm * 2 ^ 51 < (5 * 2 ^ 51 - 1) * n"

definition mean_above_10 :: "int \<Rightarrow> int \<Rightarrow> bool" where
  "mean_above_10 sm n \<longleftrightarrow> sm * 2 ^ 50 > (10 * 2 ^ 50 + 1) * n"

definition depth_instruction :: "int option list \<Rightarrow> pystr" where
  "depth_instruction marks_history =
     (let marks_list = map (\<lambda>h. case h of None \<Rightarrow> 7 | Some m \<Rightarrow> m) marks_history;
          total = sum_list marks_list;
          n = int (length marks_list);
          averaged = (marks_list \<noteq> [] \<and> \<not> mean_overflows total n)
      in if averaged \<and> mean_below_5 total n then py ''Provide a concise answer (3-4 marks).''
         else if averaged \<and> mean_above_10 total n
           then py ''Provide an extensive, in-depth answer (13 marks).''
         else py ''Provide a comprehensive answer (approx. 2-3 pages).'')"

definition user_prompt :: "pystr \<Rightarrow> pystr \<Rightarrow> int option list \<Rightarrow> pystr" where
  "user_prompt question_text unit_title marks_history =
     py ''**Subject Unit:** '' @ unit_title @ [10] @
     py ''**Target Depth:** '' @ depth_instruction marks_history @ [10, 10] @
     py ''**Question:**\<newline>'' @ question_text"

definition solution_messages :: "pystr \<Rightarrow> pystr \<Rightarrow> int option list \<Rightarrow> message list" where
  "solution_messages question_text unit_title marks_history =
     [\<lparr>role = System, content = system_prompt question_text\<rparr>,
      \<lparr>role = User, content = user_prompt question_text unit_title marks_history\<rparr>]"

definition query_messages :: "pystr \<Rightarrow> message list" where
  "query_messages question_text =
     (let search_text = strip (before_slash question_text)
      in [\<lparr>role = System,
            content = py ''You are a helpful assistant that generates YouTube search queries.''\<rparr>,
          \<lparr>role = User,
            content = py ''Write a specific YouTube search query for: \"'' @ search_text @
                      py ''\". Only return the query string.''\<rparr>])"

section \<open>Configuration, external services and the process state\<close>

text \<open>
  What the two external services answer is not decided by the program. One request to
  the generation service (\<^verbatim>\<open>client.chat.completions.create\<close> and the reading of
  \<^verbatim>\<open>choices[0].message.content\<close>) either yields the content, raises
  \<^verbatim>\<open>RateLimitError\<close>, or raises anything else. One request to the video search
  (\<^verbatim>\<open>request.execute()\<close> and the reading of the first item) yields the items, raises
  \<^verbatim>\<open>HttpError\<close> with a status, or raises anything else.
\<close>

datatype groq_outcome = Completion pystr | RateLimitError | GroqError

record yt_item =
  item_videoId :: pystr
  item_title :: pystr
  item_channelTitle :: pystr

datatype yt_outcome = Items "yt_item list" | HttpError nat | YtError

text \<open>
  The environment of a run: the two key lists read from the configuration at import
  time, the answer of each service to its \<open>n\<close>-th request, and the value of
  \<^verbatim>\<open>stop_event.is_set()\<close> at the \<open>n\<close>-th time it is read (the flag is set by another
  thread).
\<close>

record env =
  GROQ_API_KEYS :: "pystr list"
  YOUTUBE_API_KEYS :: "pystr list"
  groq_reply :: "nat \<Rightarrow> groq_outcome"
  yt_reply :: "nat \<Rightarrow> yt_outcome"
  stop_is_set :: "nat \<Rightarrow> bool"

text \<open>
  The structured records put on \<^verbatim>\<open>log_queue\<close>. Elapsed times are read from the clock
  and carry no value here. The lines written by \<^verbatim>\<open>print\<close> are not modelled.
\<close>

datatype service = Groq | YouTube

datatype key_status = Active | Exhausted | Switching

datatype step = Generating_Query | Searching_YouTube | Generating_Solution

datatype detail =
  D_text pystr | D_searchQuery pystr | D_videoTime | D_charCount nat | D_anomaly nat |
  D_solutionTime | D_totalTime

datatype status = Stopped | Complete

datatype event =
  Progress nat nat "nat option" | Api_key service nat nat key_status | Q_details detail |
  Active_step step nat | Status status

text \<open>
  The document. \<^verbatim>\<open>d.get(k, default)\<close> on a key that may be missing reads an
  \<open>option\<close>. For \<^verbatim>\<open>video\<close> and \<^verbatim>\<open>solution\<close> the JSON value \<^verbatim>\<open>null\<close> is kept apart
  from a missing key.
\<close>

datatype 'a field = Missing | Null | Val 'a

record video_ref =
  videoId :: pystr
  title :: pystr
  channelTitle :: pystr
  searchQuery :: pystr

record question =
  q_text :: "pystr option"
  history :: "int option list option"
  video :: "video_ref field"
  solution :: "pystr field"

record bank_unit =
  u_title :: "pystr option"
  questions :: "question list option"

record question_bank =
  bank_title :: "pystr option"
  units :: "bank_unit list option"

text \<open>
  The state: the module's globals, what the run has done to the outside so far
  (records put on the queue, seconds slept, requests sent, reads of the stop flag,
  documents dumped to \<^verbatim>\<open>output.json\<close>), and the local variables of
  \<^verbatim>\<open>process_subject\<close>. A client handle is the key it was built with.
\<close>

record state =
  current_groq_key_index :: nat
  client :: "pystr option"
  current_yt_key_index :: nat
  youtube :: "pystr option"
  log_queue :: "event list"
  sleeps :: "nat list"
  groq_requests :: "(message list \<times> nat option) list"
  yt_requests :: "pystr list"
  stop_reads :: nat
  dumps :: "question_bank list"
  data :: question_bank
  global_counter :: nat
  anomalies_list :: "(nat \<times> nat \<times> nat) list"
  modified_this_step :: bool

definition FORCE_REGENERATE_SOLUTIONS :: bool where
  "FORCE_REGENERATE_SOLUTIONS = True"

definition put :: "event \<Rightarrow> state \<Rightarrow> state" where
  "put e st = st\<lparr>log_queue := log_queue st @ [e]\<rparr>"

definition sleep :: "nat \<Rightarrow> state \<Rightarrow> state" where
  "sleep seconds st = st\<lparr>sleeps := sleeps st @ [seconds]\<rparr>"

definition is_set :: "env \<Rightarrow> state \<Rightarrow> bool \<times> state" where
  "is_set env st = (stop_is_set env (stop_reads st), st\<lparr>stop_reads := stop_reads st + 1\<rparr>)"

text \<open>
  \<^verbatim>\<open>save_json_file(OUTPUT_FILENAME, data)\<close>: the document is dumped to the file. A write
  that raises is caught and printed; whether it raises is outside the model.
\<close>

definition save_json_file :: "state \<Rightarrow> state" where
  "save_json_file st = st\<lparr>dumps := dumps st @ [data st]\<rparr>"

section \<open>Key rotation\<close>

definition switch_groq_api_key :: "env \<Rightarrow> state \<Rightarrow> pystr option \<times> state" where
  "switch_groq_api_key env st =
     (if GROQ_API_KEYS env = [] then (None, st)
      else
        let i = (current_groq_key_index st + 1) mod length (GROQ_API_KEYS env);
            new_key = GROQ_API_KEYS env ! i;
            st = st\<lparr>current_groq_key_index := i\<rparr>;
            st = put (Api_key Groq (i + 1) (length (GROQ_API_KEYS env)) Switching) st;
            st = st\<lparr>client := Some new_key\<rparr>
        in (Some new_key, st))"

definition switch_youtube_key :: "env \<Rightarrow> state \<Rightarrow> pystr option \<times> state" where
  "switch_youtube_key env st =
     (if YOUTUBE_API_KEYS env = [] then (None, st)
      else
        let i = (current_yt_key_index st + 1) mod length (YOUTUBE_API_KEYS env);
            new_key = YOUTUBE_API_KEYS env ! i;
            st = st\<lparr>current_yt_key_index := i\<rparr>;
            st = put (Api_key YouTube (i + 1) (length (YOUTUBE_API_KEYS env)) Switching) st;
            st = st\<lparr>youtube := Some new_key\<rparr>
        in (Some new_key, st))"

section \<open>The generation client\<close>

text \<open>
  The loop \<^verbatim>\<open>for attempt in range(max_retries)\<close> of \<^verbatim>\<open>generate_with_retry\<close>, by the
  number of attempts left; \<open>keys_tried\<close> is \<^verbatim>\<open>keys_tried_in_this_attempt\<close>. After the
  last attempt the function returns \<open>None\<close>.
\<close>

fun attempts ::
  "env \<Rightarrow> message list \<Rightarrow> nat option \<Rightarrow> nat \<Rightarrow> nat \<Rightarrow> state \<Rightarrow> pystr option \<times> state" where
  "attempts env messages_list max_tokens 0 keys_tried st = (None, st)"
| "attempts env messages_list max_tokens (Suc n) keys_tried st =
     (let reply = groq_reply env (length (groq_requests st));
          st = st\<lparr>groq_requests := groq_requests st @ [(messages_list, max_tokens)]\<rparr>
      in case reply of
           Completion text \<Rightarrow> (Some (strip text), st)
         | RateLimitError \<Rightarrow>
             (let st = put (Api_key Groq (current_groq_key_index st + 1)
                              (length (GROQ_API_KEYS env)) Exhausted) st;
                  st = snd (switch_groq_api_key env st);
                  keys_tried = keys_tried + 1
              in if keys_tried \<ge> length (GROQ_API_KEYS env)
                 then attempts env messages_list max_tokens n 0 (sleep 20 st)
                 else attempts env messages_list max_tokens n keys_tried (sleep 1 st))
         | GroqError \<Rightarrow> attempts env messages_list max_tokens n keys_tried (sleep 5 st))"

definition generate_with_retry ::
  "env \<Rightarrow> message list \<Rightarrow> nat option \<Rightarrow> nat \<Rightarrow> state \<Rightarrow> pystr option \<times> state" where
  "generate_with_retry env messages_list max_tokens max_retries st =
     (if client st = None then (None, st)
      else attempts env messages_list max_tokens max_retries 0 st)"

text \<open>The default of the parameter \<^verbatim>\<open>max_retries\<close>; both callers rely on it.\<close>

definition max_retries_default :: nat where
  "max_retries_default = 10"

definition get_youtube_search_query :: "env \<Rightarrow> pystr \<Rightarrow> state \<Rightarrow> pystr option \<times> state" where
  "get_youtube_search_query env question_text st =
     generate_with_retry env (query_messages question_text) None max_retries_default st"

definition get_detailed_solution ::
  "env \<Rightarrow> pystr \<Rightarrow> pystr \<Rightarrow> int option list \<Rightarrow> state \<Rightarrow> pystr option \<times> state" where
  "get_detailed_solution env question_text unit_title marks_history st =
     generate_with_retry env (solution_messages question_text unit_title marks_history)
       (Some 4096) max_retries_default st"

section \<open>The video-search client\<close>

text \<open>The loop \<^verbatim>\<open>while keys_tried < max_attempts\<close> of \<^verbatim>\<open>search_youtube_video\<close>.\<close>

function search_loop ::
  "env \<Rightarrow> pystr \<Rightarrow> nat \<Rightarrow> nat \<Rightarrow> state \<Rightarrow> video_ref option \<times> state" where
  "search_loop env query max_attempts keys_tried st =
     (if keys_tried < max_attempts then
        (let reply = yt_reply env (length (yt_requests st));
             st = st\<lparr>yt_requests := yt_requests st @ [query]\<rparr>
         in case reply of
              Items items \<Rightarrow>
                (case items of
                   [] \<Rightarrow> (None, st)
                 | item # _ \<Rightarrow>
                     (Some \<lparr>videoId = item_videoId item, title = item_title item,
                            channelTitle = item_channelTitle item, searchQuery = query\<rparr>, st))
            | HttpError status \<Rightarrow>
                if status = 403 \<or> status = 400 then
                  if length (YOUTUBE_API_KEYS env) > 1
                  then search_loop env query max_attempts (keys_tried + 1)
                         (snd (switch_youtube_key env st))
                  else (None, st)
                else (None, st)
            | YtError \<Rightarrow> (None, st))
      else (None, st))"
  by pat_completeness auto
termination
  by (relation "measure (\<lambda>(env, query, max_attempts, keys_tried, st). max_attempts - keys_tried)")
     auto

definition search_youtube_video :: "env \<Rightarrow> pystr \<Rightarrow> state \<Rightarrow> video_ref option \<times> state" where
  "search_youtube_video env query st =
     (if query = [] then (None, st)
      else if youtube st = None then (None, st)
      else
        let max_attempts =
              (if YOUTUBE_API_KEYS env \<noteq> [] then length (YOUTUBE_API_KEYS env) else 1)
        in search_loop env query max_attempts 0 st)"

section \<open>The walk over the question bank\<close>

definition units_of :: "question_bank \<Rightarrow> bank_unit list" where
  "units_of d = (case units d of None \<Rightarrow> [] | Some us \<Rightarrow> us)"

definition questions_of :: "bank_unit \<Rightarrow> question list" where
  "questions_of u = (case questions u of None \<Rightarrow> [] | Some qs \<Rightarrow> qs)"

definition count_total_questions :: "question_bank \<Rightarrow> nat" where
  "count_total_questions d = sum_list (map (\<lambda>u. length (questions_of u)) (units_of d))"

text \<open>
  The loops hold a reference \<^verbatim>\<open>question\<close> into the document and assign to its keys;
  the document that is dumped afterwards shows the assignment. Here the question is
  read and written through its position in the document.
\<close>

definition question_at :: "question_bank \<Rightarrow> nat \<Rightarrow> nat \<Rightarrow> question" where
  "question_at d u_idx q_idx = questions_of (units_of d ! u_idx) ! q_idx"

definition assign :: "nat \<Rightarrow> nat \<Rightarrow> (question \<Rightarrow> question) \<Rightarrow> question_bank \<Rightarrow> question_bank" where
  "assign u_idx q_idx f d =
     (let us = units_of d; u = us ! u_idx; qs = questions_of u
      in d\<lparr>units := Some (us[u_idx := u\<lparr>questions := Some (qs[q_idx := f (qs ! q_idx)])\<rparr>])\<rparr>)"

text \<open>Truth values of \<^verbatim>\<open>question.get('video')\<close>, of a returned string and of
  \<^verbatim>\<open>question.get('solution')\<close>.\<close>

definition truthy_video :: "video_ref field \<Rightarrow> bool" where
  "truthy_video v = (case v of Val r \<Rightarrow> True | Null \<Rightarrow> False | Missing \<Rightarrow> False)"

definition truthy_solution :: "pystr field \<Rightarrow> bool" where
  "truthy_solution v = (case v of Val s \<Rightarrow> s \<noteq> [] | Null \<Rightarrow> False | Missing \<Rightarrow> False)"

definition truthy :: "pystr option \<Rightarrow> bool" where
  "truthy r = (case r of Some s \<Rightarrow> s \<noteq> [] | None \<Rightarrow> False)"

text \<open>The branch \<^verbatim>\<open>if search_query:\<close> of step 1.\<close>

definition search_and_store :: "env \<Rightarrow> nat \<Rightarrow> nat \<Rightarrow> pystr \<Rightarrow> state \<Rightarrow> state" where
  "search_and_store env u_idx q_idx search_query st =
     (let st = put (Q_details (D_searchQuery search_query)) st;
          st = put (Active_step Searching_YouTube (global_counter st)) st;
          (video_data, st) = search_youtube_video env search_query st
      in case video_data of
           Some v \<Rightarrow>
             (let st = st\<lparr>data := assign u_idx q_idx (\<lambda>question. question\<lparr>video := Val v\<rparr>) (data st)\<rparr>;
                  st = save_json_file st
              in st\<lparr>modified_this_step := True\<rparr>)
         | None \<Rightarrow>
             st\<lparr>data := assign u_idx q_idx (\<lambda>question. question\<lparr>video := Null\<rparr>) (data st)\<rparr>)"

text \<open>Step 1 of a question. The first component tells that \<^verbatim>\<open>process_subject\<close> returned
  at a checkpoint.\<close>

definition video_step :: "env \<Rightarrow> nat \<Rightarrow> nat \<Rightarrow> pystr \<Rightarrow> state \<Rightarrow> bool \<times> state" where
  "video_step env u_idx q_idx question_text st =
     (let (stop, st) = is_set env st in
      if stop then (True, st)
      else if \<not> truthy_video (video (question_at (data st) u_idx q_idx)) then
        (let st = put (Active_step Generating_Query (global_counter st)) st;
             (search_query, st) = get_youtube_search_query env question_text st;
             (stop, st) = is_set env st
         in if stop then (True, st)
            else
              let st = (if truthy search_query
                        then search_and_store env u_idx q_idx (the search_query) st
                        else st);
                  st = put (Q_details D_videoTime) st
              in (False, sleep 1 st))
      else (False, st))"

text \<open>The branch \<^verbatim>\<open>if solution_text:\<close> of step 2. An entry of \<^verbatim>\<open>anomalies_list\<close> is the
  unit number, the question number and the length.\<close>

definition store_solution :: "nat \<Rightarrow> nat \<Rightarrow> pystr \<Rightarrow> state \<Rightarrow> state" where
  "store_solution u_idx q_idx solution_text st =
     (let char_count = length solution_text;
          st = st\<lparr>data := assign u_idx q_idx
                  (\<lambda>question. question\<lparr>solution := Val solution_text\<rparr>) (data st)\<rparr>;
          anomaly = (char_count > 8000);
          st = (if anomaly
                then st\<lparr>anomalies_list := anomalies_list st @ [(u_idx + 1, q_idx + 1, char_count)]\<rparr>
                else st);
          st = put (Q_details (D_charCount char_count)) st;
          st = (if anomaly then put (Q_details (D_anomaly char_count)) st else st);
          st = save_json_file st
      in st\<lparr>modified_this_step := True\<rparr>)"

definition solution_step :: "env \<Rightarrow> nat \<Rightarrow> nat \<Rightarrow> pystr \<Rightarrow> pystr \<Rightarrow> state \<Rightarrow> bool \<times> state" where
  "solution_step env u_idx q_idx unit_title question_text st =
     (let (stop, st) = is_set env st in
      if stop then (True, st)
      else if FORCE_REGENERATE_SOLUTIONS
              \<or> \<not> truthy_solution (solution (question_at (data st) u_idx q_idx)) then
        (let st = put (Active_step Generating_Solution (global_counter st)) st;
             marks_history = (case history (question_at (data st) u_idx q_idx) of
                                None \<Rightarrow> [] | Some h \<Rightarrow> h);
             (solution_text, st) =
               get_detailed_solution env question_text unit_title marks_history st;
             (stop, st) = is_set env st
         in if stop then (True, st)
            else
              let st = (if truthy solution_text
                        then store_solution u_idx q_idx (the solution_text) st
                        else st);
                  st = put (Q_details D_solutionTime) st
              in (False, sleep 1 st))
      else (False, st))"

text \<open>The body of the loop over the questions of a unit.\<close>

definition process_question ::
  "env \<Rightarrow> nat \<Rightarrow> nat \<Rightarrow> pystr \<Rightarrow> nat \<Rightarrow> state \<Rightarrow> bool \<times> state" where
  "process_question env total_qs u_idx unit_title q_idx st =
     (let st = st\<lparr>global_counter := global_counter st + 1\<rparr>;
          question_text = (case q_text (question_at (data st) u_idx q_idx) of
                             None \<Rightarrow> py ''No Text'' | Some t \<Rightarrow> t);
          st = put (Q_details (D_text question_text)) st;
          st = put (Progress (global_counter st) total_qs (Some (global_counter st))) st;
          st = st\<lparr>modified_this_step := False\<rparr>;
          (returned, st) = video_step env u_idx q_idx question_text st
      in if returned then (True, st)
         else
           let (returned, st) = solution_step env u_idx q_idx unit_title question_text st
           in if returned then (True, st)
              else (False, if modified_this_step st then put (Q_details D_totalTime) st else st))"

fun questions_loop ::
  "env \<Rightarrow> nat \<Rightarrow> nat \<Rightarrow> pystr \<Rightarrow> nat list \<Rightarrow> state \<Rightarrow> bool \<times> state" where
  "questions_loop env total_qs u_idx unit_title [] st = (False, st)"
| "questions_loop env total_qs u_idx unit_title (q_idx # rest) st =
     (let (returned, st) = process_question env total_qs u_idx unit_title q_idx st
      in if returned then (True, st)
         else questions_loop env total_qs u_idx unit_title rest st)"

text \<open>The body of the loop over the units.\<close>

definition process_unit :: "env \<Rightarrow> nat \<Rightarrow> nat \<Rightarrow> state \<Rightarrow> bool \<times> state" where
  "process_unit env total_qs u_idx st =
     (let (stop, st) = is_set env st in
      if stop then (True, st)
      else
        let u = units_of (data st) ! u_idx;
            unit_title = (case u_title u of
                            None \<Rightarrow> py ''Unit '' @ str_nat (u_idx + 1) | Some t \<Rightarrow> t)
        in questions_loop env total_qs u_idx unit_title [0..<length (questions_of u)] st)"

fun units_loop :: "env \<Rightarrow> nat \<Rightarrow> nat list \<Rightarrow> state \<Rightarrow> bool \<times> state" where
  "units_loop env total_qs [] st = (False, st)"
| "units_loop env total_qs (u_idx # rest) st =
     (let (returned, st) = process_unit env total_qs u_idx st
      in if returned then (True, st) else units_loop env total_qs rest st)"

text \<open>\<^verbatim>\<open>process_subject(data)\<close>. The returned document is the \<open>data\<close> of the result.\<close>

definition process_subject :: "env \<Rightarrow> question_bank \<Rightarrow> state \<Rightarrow> state" where
  "process_subject env d st =
     (let st = st\<lparr>data := d, global_counter := 0, anomalies_list := []\<rparr>;
          total_qs = count_total_questions d;
          st = put (Progress 0 total_qs None) st;
          st = put (Api_key Groq (current_groq_key_index st + 1)
                      (length (GROQ_API_KEYS env)) Active) st;
          st = put (Api_key YouTube (current_yt_key_index st + 1)
                      (length (YOUTUBE_API_KEYS env)) Active) st;
          (returned, st) = units_loop env total_qs [0..<length (units_of d)] st
      in if returned then st
         else
           let (stop, st) = is_set env st
           in if stop then put (Status Stopped) st else put (Status Complete) st)"

text \<open>The state after the module is imported, before any run.\<close>

definition initial_state :: "env \<Rightarrow> state" where
  "initial_state env =
     \<lparr>current_groq_key_index = 0,
      client = (if GROQ_API_KEYS env \<noteq> [] then Some (GROQ_API_KEYS env ! 0) else None),
      current_yt_key_index = 0,
      youtube = (if YOUTUBE_API_KEYS env \<noteq> [] then Some (YOUTUBE_API_KEYS env ! 0) else None),
      log_queue = [], sleeps = [], groq_requests = [], yt_requests = [], stop_reads = 0,
      dumps = [],
      data = \<lparr>bank_title = None, units = None\<rparr>,
      global_counter = 0, anomalies_list = [], modified_this_step = False\<rparr>"

section \<open>Notions used to state the properties\<close>

text \<open>The answers of the generation service to the requests sent between two states, and
  likewise for the video search.\<close>

definition replies :: "env \<Rightarrow> state \<Rightarrow> state \<Rightarrow> groq_outcome list" where
  "replies env st st' =
     map (groq_reply env) [length (groq_requests st)..<length (groq_requests st')]"


text \<open>The auth/quota error class of the video search: HTTP status 403 or 400.\<close>

definition quota_error :: "yt_outcome \<Rightarrow> bool" where
  "quota_error reply = (reply = HttpError 403 \<or> reply = HttpError 400)"

text \<open>The rotator's advance on a cursor, as the specification states it.\<close>

definition advance :: "nat \<Rightarrow> nat \<Rightarrow> nat" where
  "advance L i = (i + 1) mod L"

text \<open>
  The sleeps of the generation client as the specification words them, over the answers
  received: on a rate-limit signal the rotations are counted, and once they are at least
  the number of keys the cooldown of 20 seconds is slept and the counter reset, else 1
  second; on any other error 5 seconds, the counter untouched; a completion ends the call.
\<close>

fun spec_backoff :: "nat \<Rightarrow> nat \<Rightarrow> groq_outcome list \<Rightarrow> nat list" where
  "spec_backoff L rotations [] = []"
| "spec_backoff L rotations (Completion t # os) = []"
| "spec_backoff L rotations (RateLimitError # os) =
     (if rotations + 1 \<ge> L then 20 # spec_backoff L 0 os
      else 1 # spec_backoff L (rotations + 1) os)"
| "spec_backoff L rotations (GroqError # os) = 5 # spec_backoff L rotations os"

text \<open>
  What a later run must not undo: the shape of the document is kept, a video that is set
  stays the same video, and a solution that is set stays set.
\<close>

definition keeps :: "question_bank \<Rightarrow> question_bank \<Rightarrow> bool" where
  "keeps d d' \<longleftrightarrow>
     length (units_of d') = length (units_of d) \<and>
     (\<forall>u < length (units_of d).
        length (questions_of (units_of d' ! u)) = length (questions_of (units_of d ! u)) \<and>
        (\<forall>q < length (questions_of (units_of d ! u)).
           (\<forall>v. video (question_at d u q) = Val v \<longrightarrow> video (question_at d' u q) = Val v) \<and>
           (truthy_solution (solution (question_at d u q)) \<longrightarrow>
              truthy_solution (solution (question_at d' u q)))))"

text \<open>
  What the snapshots are compared on: the document up to the difference between a
  \<^verbatim>\<open>video\<close> that is null and one that is missing, which the walker does not tell apart.
\<close>

definition erase_null :: "question \<Rightarrow> question" where
  "erase_null x = (case video x of Null \<Rightarrow> x\<lparr>video := Missing\<rparr> | _ \<Rightarrow> x)"

definition settled :: "question_bank \<Rightarrow> pystr option \<times> (pystr option \<times> question list) list" where
  "settled d =
     (bank_title d, map (\<lambda>u. (u_title u, map erase_null (questions_of u))) (units_of d))"

text \<open>
  The snapshots written since a run started with document \<open>d\<close> and earlier dumps \<open>ds\<close>
  are up to date: the earlier dumps are still there, and the document in memory is, as
  far as \<open>settled\<close> goes, the last snapshot written since, or \<open>d\<close> when none was written.
\<close>

definition flushed :: "question_bank \<Rightarrow> question_bank list \<Rightarrow> state \<Rightarrow> bool" where
  "flushed d ds st \<longleftrightarrow>
     take (length ds) (dumps st) = ds \<and>
     settled (data st) = settled (last (d # drop (length ds) (dumps st)))"

subsection \<open>Concrete runs\<close>

definition sample_item :: yt_item where
  "sample_item = \<lparr>item_videoId = py ''v1'', item_title = py ''T'', item_channelTitle = py ''C''\<rparr>"

text \<open>Two keys for each service; every request succeeds; the stop flag is never set.\<close>

definition sample_env :: env where
  "sample_env =
     \<lparr>GROQ_API_KEYS = [py ''g1'', py ''g2''], YOUTUBE_API_KEYS = [py ''y1'', py ''y2''],
      groq_reply = (\<lambda>n. Completion (py ''ok'')),
      yt_reply = (\<lambda>n. Items [sample_item]),
      stop_is_set = (\<lambda>n. False)\<rparr>"

text \<open>The first two generation requests hit the rate limit, the third fails otherwise,
  later ones succeed; the first video search is refused with status 403.\<close>

definition flaky_env :: env where
  "flaky_env =
     sample_env\<lparr>groq_reply := (\<lambda>n. if n < 2 then RateLimitError
                                     else if n = 2 then GroqError
                                     else Completion (py '' ok '')),
                yt_reply := (\<lambda>n. if n = 0 then HttpError 403 else Items [sample_item])\<rparr>"

text \<open>Every generation request fails with an error that is not a rate limit.\<close>

definition failing_env :: env where
  "failing_env = sample_env\<lparr>groq_reply := (\<lambda>n. GroqError)\<rparr>"

text \<open>No key configured for either service.\<close>

definition unconfigured_env :: env where
  "unconfigured_env = sample_env\<lparr>GROQ_API_KEYS := [], YOUTUBE_API_KEYS := []\<rparr>"

text \<open>One unit with one question, whose \<^verbatim>\<open>video\<close> holds the given field.\<close>

definition sample_bank :: "video_ref field \<Rightarrow> question_bank" where
  "sample_bank v =
     \<lparr>bank_title = Some (py ''S''),
      units = Some [\<lparr>u_title = Some (py ''U''),
                     questions = Some [\<lparr>q_text = Some (py ''Q''), history = None,
                                        video = v, solution = Missing\<rparr>]\<rparr>]\<rparr>"

definition sample_ref :: video_ref where
  "sample_ref = \<lparr>videoId = py ''v0'', title = py ''T0'', channelTitle = py ''C0'',
                 searchQuery = py ''q0''\<rparr>"

text \<open>The same bank after an earlier run: the question has a video and a solution.\<close>

definition solved_bank :: question_bank where
  "solved_bank =
     \<lparr>bank_title = Some (py ''S''),
      units = Some [\<lparr>u_title = Some (py ''U''),
                     questions = Some [\<lparr>q_text = Some (py ''Q''), history = None,
                                        video = Val sample_ref,
                                        solution = Val (py ''old'')\<rparr>]\<rparr>]\<rparr>"

text \<open>The stop flag is set from the start of the run.\<close>

definition stopped_env :: env where
  "stopped_env = sample_env\<lparr>stop_is_set := (\<lambda>n. True)\<rparr>"

text \<open>Every generation request is answered by \<open>n\<close> times the letter \<^verbatim>\<open>a\<close>.\<close>

definition long_env :: "nat \<Rightarrow> env" where
  "long_env n = sample_env\<lparr>groq_reply := (\<lambda>k. Completion (replicate n 97))\<rparr>"

section \<open>Proofs\<close>

lemma switch_groq_frame [simp]:
  "groq_requests (snd (switch_groq_api_key env st)) = groq_requests st"
  "sleeps (snd (switch_groq_api_key env st)) = sleeps st"
  "data (snd (switch_groq_api_key env st)) = data st"
  "yt_requests (snd (switch_groq_api_key env st)) = yt_requests st"
  "dumps (snd (switch_groq_api_key env st)) = dumps st"
  "stop_reads (snd (switch_groq_api_key env st)) = stop_reads st"
  by (simp_all add: switch_groq_api_key_def put_def Let_def)

lemma groq_index_switch:
  "current_groq_key_index (snd (switch_groq_api_key env st)) =
     (if GROQ_API_KEYS env = [] then current_groq_key_index st
      else (current_groq_key_index st + 1) mod length (GROQ_API_KEYS env))"
  by (simp add: switch_groq_api_key_def put_def Let_def)

lemma attempts_requests:
  "attempts env m kw N k st = (r, st') \<Longrightarrow>
   \<exists>n\<le>N. groq_requests st' = groq_requests st @ replicate n (m, kw)"
proof (induction N arbitrary: k st)
  case 0
  then show ?case by simp
next
  case (Suc N)
  show ?case
  proof (cases "groq_reply env (length (groq_requests st))")
    case (Completion t)
    with Suc.prems show ?thesis
      by (auto simp: Let_def intro!: exI[of _ "Suc 0"])
  next
    case RateLimitError
    with Suc.prems obtain k' st1 where
      rec: "attempts env m kw N k' st1 = (r, st')" and
      rq: "groq_requests st1 = groq_requests st @ [(m, kw)]"
      by (auto simp: Let_def sleep_def put_def split: if_splits)
    from Suc.IH[OF rec] obtain n where "n \<le> N" "groq_requests st' = groq_requests st1 @ replicate n (m, kw)"
      by blast
    with rq show ?thesis
      by (auto intro!: exI[of _ "Suc n"] simp: replicate_app_Cons_same)
  next
    case GroqError
    with Suc.prems obtain st1 where
      rec: "attempts env m kw N k st1 = (r, st')" and
      rq: "groq_requests st1 = groq_requests st @ [(m, kw)]"
      by (auto simp: Let_def sleep_def put_def split: if_splits)
    from Suc.IH[OF rec] obtain n where "n \<le> N" "groq_requests st' = groq_requests st1 @ replicate n (m, kw)"
      by blast
    with rq show ?thesis
      by (auto intro!: exI[of _ "Suc n"] simp: replicate_app_Cons_same)
  qed
qed

lemma attempts_length:
  "attempts env m kw N k st = (r, st') \<Longrightarrow>
   length (groq_requests st) \<le> length (groq_requests st') \<and>
   length (groq_requests st') \<le> length (groq_requests st) + N"
  by (drule attempts_requests) auto

lemma replies_step:
  "length (groq_requests st1) = Suc (length (groq_requests st)) \<Longrightarrow>
   length (groq_requests st1) \<le> length (groq_requests st') \<Longrightarrow>
   replies env st st' = groq_reply env (length (groq_requests st)) # replies env st1 st'"
  by (simp add: replies_def upt_conv_Cons)

lemma attempts_sleeps:
  "attempts env m kw N k st = (r, st') \<Longrightarrow>
   sleeps st' = sleeps st @ spec_backoff (length (GROQ_API_KEYS env)) k (replies env st st')"
proof (induction N arbitrary: k st)
  case 0
  then show ?case by (simp add: replies_def)
next
  case (Suc N)
  show ?case
  proof (cases "groq_reply env (length (groq_requests st))")
    case (Completion t)
    with Suc.prems show ?thesis
      by (auto simp: Let_def replies_def upt_conv_Cons)
  next
    case RateLimitError
    with Suc.prems obtain k' st1 x where
      rec: "attempts env m kw N k' st1 = (r, st')" and
      rq: "groq_requests st1 = groq_requests st @ [(m, kw)]" and
      sl: "sleeps st1 = sleeps st @ [x]" and
      kx: "if k + 1 \<ge> length (GROQ_API_KEYS env) then k' = 0 \<and> x = 20 else k' = k + 1 \<and> x = 1"
      by (auto simp: Let_def sleep_def put_def split: if_splits)
    from attempts_length[OF rec] rq
    have "replies env st st' = RateLimitError # replies env st1 st'"
      using RateLimitError by (subst replies_step[of st1]) auto
    with Suc.IH[OF rec] sl kx show ?thesis
      by (auto split: if_splits)
  next
    case GroqError
    with Suc.prems obtain st1 where
      rec: "attempts env m kw N k st1 = (r, st')" and
      rq: "groq_requests st1 = groq_requests st @ [(m, kw)]" and
      sl: "sleeps st1 = sleeps st @ [5]"
      by (auto simp: Let_def sleep_def put_def split: if_splits)
    from attempts_length[OF rec] rq
    have "replies env st st' = GroqError # replies env st1 st'"
      using GroqError by (subst replies_step[of st1]) auto
    with Suc.IH[OF rec] sl show ?thesis
      by auto
  qed
qed

lemma attempts_cursor:
  "attempts env m kw N k st = (r, st') \<Longrightarrow> GROQ_API_KEYS env \<noteq> [] \<Longrightarrow>
   current_groq_key_index st' =
     (advance (length (GROQ_API_KEYS env)) ^^ count_list (replies env st st') RateLimitError)
       (current_groq_key_index st)"
proof (induction N arbitrary: k st)
  case 0
  then show ?case by (simp add: replies_def)
next
  case (Suc N)
  show ?case
  proof (cases "groq_reply env (length (groq_requests st))")
    case (Completion t)
    with Suc.prems show ?thesis
      by (auto simp: Let_def replies_def upt_conv_Cons)
  next
    case RateLimitError
    with Suc.prems obtain k' st1 where
      rec: "attempts env m kw N k' st1 = (r, st')" and
      rq: "groq_requests st1 = groq_requests st @ [(m, kw)]" and
      ix: "current_groq_key_index st1 = advance (length (GROQ_API_KEYS env)) (current_groq_key_index st)"
      by (auto simp: Let_def sleep_def put_def groq_index_switch advance_def split: if_splits)
    from attempts_length[OF rec] rq
    have "replies env st st' = RateLimitError # replies env st1 st'"
      using RateLimitError by (subst replies_step[of st1]) auto
    with Suc.IH[OF rec] ix Suc.prems(2) show ?thesis
      by (simp add: funpow_swap1)
  next
    case GroqError
    with Suc.prems obtain st1 where
      rec: "attempts env m kw N k st1 = (r, st')" and
      rq: "groq_requests st1 = groq_requests st @ [(m, kw)]" and
      ix: "current_groq_key_index st1 = current_groq_key_index st"
      by (auto simp: Let_def sleep_def put_def split: if_splits)
    from attempts_length[OF rec] rq
    have "replies env st st' = GroqError # replies env st1 st'"
      using GroqError by (subst replies_step[of st1]) auto
    with Suc.IH[OF rec] ix Suc.prems(2) show ?thesis
      by simp
  qed
qed

lemma attempts_result:
  "attempts env m kw N k st = (r, st') \<Longrightarrow>
   (case r of
      None \<Rightarrow> length (groq_requests st') = length (groq_requests st) + N \<and>
              (\<forall>reply\<in>set (replies env st st'). \<forall>t. reply \<noteq> Completion t)
    | Some t \<Rightarrow> replies env st st' \<noteq> [] \<and>
              (\<exists>c. last (replies env st st') = Completion c \<and> t = strip c))"
proof (induction N arbitrary: k st)
  case 0
  then show ?case by (simp add: replies_def)
next
  case (Suc N)
  show ?case
  proof (cases "groq_reply env (length (groq_requests st))")
    case (Completion t)
    with Suc.prems show ?thesis
      by (auto simp: Let_def replies_def upt_conv_Cons)
  next
    case RateLimitError
    with Suc.prems obtain k' st1 where
      rec: "attempts env m kw N k' st1 = (r, st')" and
      rq: "groq_requests st1 = groq_requests st @ [(m, kw)]"
      by (auto simp: Let_def sleep_def put_def split: if_splits)
    from attempts_length[OF rec] rq
    have "replies env st st' = RateLimitError # replies env st1 st'"
      using RateLimitError by (subst replies_step[of st1]) auto
    with Suc.IH[OF rec] rq show ?thesis
      by (auto split: option.splits)
  next
    case GroqError
    with Suc.prems obtain st1 where
      rec: "attempts env m kw N k st1 = (r, st')" and
      rq: "groq_requests st1 = groq_requests st @ [(m, kw)]"
      by (auto simp: Let_def sleep_def put_def split: if_splits)
    from attempts_length[OF rec] rq
    have "replies env st st' = GroqError # replies env st1 st'"
      using GroqError by (subst replies_step[of st1]) auto
    with Suc.IH[OF rec] rq show ?thesis
      by (auto split: option.splits)
  qed
qed

lemma switch_yt_frame [simp]:
  "groq_requests (snd (switch_youtube_key env st)) = groq_requests st"
  "sleeps (snd (switch_youtube_key env st)) = sleeps st"
  "data (snd (switch_youtube_key env st)) = data st"
  "yt_requests (snd (switch_youtube_key env st)) = yt_requests st"
  "dumps (snd (switch_youtube_key env st)) = dumps st"
  "stop_reads (snd (switch_youtube_key env st)) = stop_reads st"
  by (simp_all add: switch_youtube_key_def put_def Let_def)

lemma yt_index_switch:
  "current_yt_key_index (snd (switch_youtube_key env st)) =
     (if YOUTUBE_API_KEYS env = [] then current_yt_key_index st
      else advance (length (YOUTUBE_API_KEYS env)) (current_yt_key_index st))"
  by (simp add: switch_youtube_key_def put_def Let_def advance_def)

declare search_loop.simps [simp del]

lemma search_loop_stop:
  "\<not> k < M \<Longrightarrow> search_loop env query M k st = (None, st)"
  by (simp add: search_loop.simps[of env query M k st])

lemma search_loop_retry:
  "k < M \<Longrightarrow> quota_error (yt_reply env (length (yt_requests st))) \<Longrightarrow>
   length (YOUTUBE_API_KEYS env) > 1 \<Longrightarrow>
   search_loop env query M k st =
     search_loop env query M (k + 1)
       (snd (switch_youtube_key env (st\<lparr>yt_requests := yt_requests st @ [query]\<rparr>)))"
  by (auto simp: search_loop.simps[of env query M k st] quota_error_def Let_def)

lemma search_loop_last:
  "k < M \<Longrightarrow>
   \<not> (quota_error (yt_reply env (length (yt_requests st))) \<and> length (YOUTUBE_API_KEYS env) > 1) \<Longrightarrow>
   search_loop env query M k st =
     (case yt_reply env (length (yt_requests st)) of
        Items (item # rest) \<Rightarrow>
          Some \<lparr>videoId = item_videoId item, title = item_title item,
                channelTitle = item_channelTitle item, searchQuery = query\<rparr>
      | _ \<Rightarrow> None,
      st\<lparr>yt_requests := yt_requests st @ [query]\<rparr>)"
  by (auto simp: search_loop.simps[of env query M k st] quota_error_def Let_def
           split: yt_outcome.splits list.splits)





lemma str_in_sublist: "str_in kw s \<longleftrightarrow> sublist kw s"
  by (induction s) (auto simp: sublist_Cons_right)

lemma py_below_256: "c \<in> set (py s) \<Longrightarrow> c < 256"
proof -
  assume "c \<in> set (py s)"
  then obtain x where "c = (of_char x :: nat)" by (auto simp: py_def)
  moreover have "(of_char x :: nat) mod 256 = of_char x" by (rule of_char_mod_256)
  ultimately show ?thesis by (metis mod_less_divisor zero_less_numeral)
qed

lemma core_rules_below_256: "c \<in> set core_rules \<Longrightarrow> c < 256"
  unfolding core_rules_def by (auto dest: py_below_256)

lemma instruction_not_in_core_rules: "\<not> sublist table_instruction core_rules"
proof
  assume "sublist table_instruction core_rules"
  then have "set table_instruction \<subseteq> set core_rules" by (rule set_mono_sublist)
  moreover have "128680 \<in> set table_instruction" by (simp add: table_instruction_def)
  ultimately have "(128680::nat) \<in> set core_rules" by blast
  then have "(128680::nat) < 256" by (rule core_rules_below_256)
  then show False by simp
qed

lemma lower_difference:
  "sublist (py ''difference'') (lower (py ''difference between X and Y''))"
  by (simp add: str_in_sublist[symmetric] py_def lower_def lower_char_def)

lemma comparison_iff:
  "is_comparison_question t \<longleftrightarrow> (\<exists>keyword\<in>set comparison_keywords. sublist keyword (lower t))"
  by (simp add: is_comparison_question_def list_ex_iff str_in_sublist)

section \<open>The key rotator\<close>

text \<open>
  Claim C6. For a key list of length \<open>L \<ge> 1\<close>, switching moves the cursor \<open>i\<close> to
  \<open>(i + 1) mod L\<close>, which is below \<open>L\<close>; the key returned and the client rebuilt are the
  key at the new cursor; from a cursor below \<open>L\<close>, switching \<open>L\<close> times comes back to
  the same cursor, hence the same key. This holds for the generation keys and for the
  video-search keys, and both cursors start at 0.
\<close>

theorem rotator_cyclic:
  "(GROQ_API_KEYS env \<noteq> [] \<longrightarrow>
      (let L = length (GROQ_API_KEYS env); adv = (\<lambda>s. snd (switch_groq_api_key env s)) in
       current_groq_key_index (adv st) = (current_groq_key_index st + 1) mod L \<and>
       current_groq_key_index (adv st) < L \<and>
       fst (switch_groq_api_key env st) = Some (GROQ_API_KEYS env ! current_groq_key_index (adv st)) \<and>
       client (adv st) = Some (GROQ_API_KEYS env ! current_groq_key_index (adv st)) \<and>
       (current_groq_key_index st < L \<longrightarrow>
          current_groq_key_index ((adv ^^ L) st) = current_groq_key_index st))) \<and>
   (YOUTUBE_API_KEYS env \<noteq> [] \<longrightarrow>
      (let L = length (YOUTUBE_API_KEYS env); adv = (\<lambda>s. snd (switch_youtube_key env s)) in
       current_yt_key_index (adv st) = (current_yt_key_index st + 1) mod L \<and>
       current_yt_key_index (adv st) < L \<and>
       fst (switch_youtube_key env st) = Some (YOUTUBE_API_KEYS env ! current_yt_key_index (adv st)) \<and>
       youtube (adv st) = Some (YOUTUBE_API_KEYS env ! current_yt_key_index (adv st)) \<and>
       (current_yt_key_index st < L \<longrightarrow>
          current_yt_key_index ((adv ^^ L) st) = current_yt_key_index st))) \<and>
   current_groq_key_index (initial_state env) = 0 \<and> current_yt_key_index (initial_state env) = 0"
proof -
  have g: "current_groq_key_index (((\<lambda>s. snd (switch_groq_api_key env s)) ^^ n) s) mod length (GROQ_API_KEYS env)
           = (current_groq_key_index s + n) mod length (GROQ_API_KEYS env)"
    if "GROQ_API_KEYS env \<noteq> []" for n s
    using that by (induction n) (simp_all add: groq_index_switch, metis mod_Suc_eq)
  have y: "current_yt_key_index (((\<lambda>s. snd (switch_youtube_key env s)) ^^ n) s) mod length (YOUTUBE_API_KEYS env)
           = (current_yt_key_index s + n) mod length (YOUTUBE_API_KEYS env)"
    if "YOUTUBE_API_KEYS env \<noteq> []" for n s
    using that by (induction n) (simp_all add: yt_index_switch advance_def, metis mod_Suc_eq)
  have gl: "current_groq_key_index (((\<lambda>s. snd (switch_groq_api_key env s)) ^^ Suc n) s) < length (GROQ_API_KEYS env)"
    if "GROQ_API_KEYS env \<noteq> []" for n s
    using that by (simp add: groq_index_switch)
  have yl: "current_yt_key_index (((\<lambda>s. snd (switch_youtube_key env s)) ^^ Suc n) s) < length (YOUTUBE_API_KEYS env)"
    if "YOUTUBE_API_KEYS env \<noteq> []" for n s
    using that by (simp add: yt_index_switch advance_def)
  have G: "current_groq_key_index (((\<lambda>s. snd (switch_groq_api_key env s)) ^^ length (GROQ_API_KEYS env)) st)
           = current_groq_key_index st"
    if ne: "GROQ_API_KEYS env \<noteq> []" and lt: "current_groq_key_index st < length (GROQ_API_KEYS env)"
  proof -
    from ne obtain n where n: "length (GROQ_API_KEYS env) = Suc n" by (cases "GROQ_API_KEYS env") auto
    from gl[OF ne, of n st] g[OF ne, of "Suc n" st] lt show ?thesis
      unfolding n by (simp del: funpow.simps) (metis add_Suc_right mod_add_self2 mod_less)
  qed
  have Y: "current_yt_key_index (((\<lambda>s. snd (switch_youtube_key env s)) ^^ length (YOUTUBE_API_KEYS env)) st)
           = current_yt_key_index st"
    if ne: "YOUTUBE_API_KEYS env \<noteq> []" and lt: "current_yt_key_index st < length (YOUTUBE_API_KEYS env)"
  proof -
    from ne obtain n where n: "length (YOUTUBE_API_KEYS env) = Suc n" by (cases "YOUTUBE_API_KEYS env") auto
    from yl[OF ne, of n st] y[OF ne, of "Suc n" st] lt show ?thesis
      unfolding n by (simp del: funpow.simps) (metis add_Suc_right mod_add_self2 mod_less)
  qed
  show ?thesis
    using G Y
    by (simp add: Let_def groq_index_switch yt_index_switch advance_def initial_state_def)
       (simp add: switch_groq_api_key_def switch_youtube_key_def Let_def put_def)
qed

theorem rotator_cyclic_witness:
  "GROQ_API_KEYS sample_env \<noteq> [] \<and> YOUTUBE_API_KEYS sample_env \<noteq> [] \<and>
   current_groq_key_index (initial_state sample_env) < length (GROQ_API_KEYS sample_env) \<and>
   current_groq_key_index (snd (switch_groq_api_key sample_env (initial_state sample_env))) = 1 \<and>
   current_groq_key_index (((\<lambda>s. snd (switch_groq_api_key sample_env s)) ^^ 2) (initial_state sample_env)) = 0 \<and>
   current_yt_key_index (((\<lambda>s. snd (switch_youtube_key sample_env s)) ^^ 2) (initial_state sample_env)) = 0"
  using rotator_cyclic[of sample_env "initial_state sample_env"]
  by (simp add: sample_env_def Let_def initial_state_def eval_nat_numeral
      switch_groq_api_key_def switch_youtube_key_def put_def)

section \<open>The generation client without a key\<close>

text \<open>
  Claim C10. When no generation client is initialised, \<^verbatim>\<open>generate_with_retry\<close> returns
  \<open>None\<close> at once and leaves the state as it was: no request is sent, nothing is slept
  and no key is rotated, whatever the retry budget.
\<close>

theorem no_client_no_attempt:
  "client st = None \<Longrightarrow>
   generate_with_retry env messages_list max_tokens max_retries st = (None, st)"
  by (simp add: generate_with_retry_def)

theorem no_client_no_attempt_witness:
  "client (initial_state unconfigured_env) = None \<and>
   generate_with_retry unconfigured_env (query_messages (py ''Q'')) None max_retries_default
     (initial_state unconfigured_env) = (None, initial_state unconfigured_env)"
proof -
  have h: "client (initial_state unconfigured_env) = None"
    by (simp add: initial_state_def unconfigured_env_def)
  from no_client_no_attempt[OF h] h show ?thesis by simp
qed

section \<open>The video-search client\<close>

lemma attempts_Suc_sends:
  "attempts env m kw (Suc n) k st = (r, st') \<Longrightarrow>
   Suc (length (groq_requests st)) \<le> length (groq_requests st')"
proof (cases "groq_reply env (length (groq_requests st))")
  case (Completion t)
  assume "attempts env m kw (Suc n) k st = (r, st')"
  with Completion show ?thesis by (auto simp: Let_def)
next
  case RateLimitError
  assume "attempts env m kw (Suc n) k st = (r, st')"
  with RateLimitError obtain k' st1 where
    "attempts env m kw n k' st1 = (r, st')" "groq_requests st1 = groq_requests st @ [(m, kw)]"
    by (auto simp: Let_def sleep_def put_def split: if_splits)
  with attempts_length[of env m kw n k' st1 r st'] show ?thesis by simp
next
  case GroqError
  assume "attempts env m kw (Suc n) k st = (r, st')"
  with GroqError obtain st1 where
    "attempts env m kw n k st1 = (r, st')" "groq_requests st1 = groq_requests st @ [(m, kw)]"
    by (auto simp: Let_def sleep_def put_def split: if_splits)
  with attempts_length[of env m kw n k st1 r st'] show ?thesis by simp
qed




section \<open>The walk\<close>

lemma switch_groq_walk [simp]:
  "global_counter (snd (switch_groq_api_key env st)) = global_counter st"
  "anomalies_list (snd (switch_groq_api_key env st)) = anomalies_list st"
  "modified_this_step (snd (switch_groq_api_key env st)) = modified_this_step st"
  by (simp_all add: switch_groq_api_key_def put_def Let_def)

lemma switch_yt_walk [simp]:
  "global_counter (snd (switch_youtube_key env st)) = global_counter st"
  "anomalies_list (snd (switch_youtube_key env st)) = anomalies_list st"
  "modified_this_step (snd (switch_youtube_key env st)) = modified_this_step st"
  by (simp_all add: switch_youtube_key_def put_def Let_def)

lemma attempts_frame:
  "attempts env m kw N k st = (r, st') \<Longrightarrow>
   data st' = data st \<and> dumps st' = dumps st \<and> yt_requests st' = yt_requests st \<and>
   stop_reads st' = stop_reads st \<and> global_counter st' = global_counter st \<and>
   anomalies_list st' = anomalies_list st \<and> modified_this_step st' = modified_this_step st"
proof (induction N arbitrary: k st)
  case 0
  then show ?case by simp
next
  case (Suc N)
  show ?case
  proof (cases "groq_reply env (length (groq_requests st))")
    case (Completion t)
    with Suc.prems show ?thesis by (auto simp: Let_def)
  next
    case RateLimitError
    let ?st1 = "snd (switch_groq_api_key env
        (put (Api_key Groq (current_groq_key_index st + 1) (length (GROQ_API_KEYS env)) Exhausted)
           (st\<lparr>groq_requests := groq_requests st @ [(m, kw)]\<rparr>)))"
    from RateLimitError Suc.prems obtain k' x where
      "attempts env m kw N k' (sleep x ?st1) = (r, st')"
      by (auto simp: Let_def split: if_splits)
    from Suc.IH[OF this] show ?thesis
      by (simp add: sleep_def put_def)
  next
    case GroqError
    with Suc.prems have
      "attempts env m kw N k (sleep 5 (st\<lparr>groq_requests := groq_requests st @ [(m, kw)]\<rparr>)) = (r, st')"
      by (auto simp: Let_def)
    from Suc.IH[OF this] show ?thesis
      by (simp add: sleep_def)
  qed
qed

lemma generate_frame:
  "generate_with_retry env m kw N st = (r, st') \<Longrightarrow>
   data st' = data st \<and> dumps st' = dumps st \<and> yt_requests st' = yt_requests st \<and>
   stop_reads st' = stop_reads st \<and> global_counter st' = global_counter st \<and>
   anomalies_list st' = anomalies_list st \<and> modified_this_step st' = modified_this_step st"
  by (auto simp: generate_with_retry_def split: if_splits dest: attempts_frame)

lemma search_loop_frame:
  "search_loop env query M k st = (r, st') \<Longrightarrow>
   data st' = data st \<and> dumps st' = dumps st \<and> groq_requests st' = groq_requests st \<and>
   stop_reads st' = stop_reads st \<and> global_counter st' = global_counter st \<and>
   anomalies_list st' = anomalies_list st \<and> modified_this_step st' = modified_this_step st \<and>
   sleeps st' = sleeps st"
proof (induction env query M k st rule: search_loop.induct)
  case (1 env query M k st)
  let ?st1 = "st\<lparr>yt_requests := yt_requests st @ [query]\<rparr>"
  consider (stop) "\<not> k < M"
    | (retry) "k < M" "quota_error (yt_reply env (length (yt_requests st)))"
        "length (YOUTUBE_API_KEYS env) > 1"
    | (last) "k < M" "\<not> (quota_error (yt_reply env (length (yt_requests st))) \<and>
        length (YOUTUBE_API_KEYS env) > 1)"
    by blast
  then show ?case
  proof cases
    case stop
    with "1.prems" show ?thesis by (simp add: search_loop_stop)
  next
    case retry
    then obtain status where
      st: "yt_reply env (length (yt_requests st)) = HttpError status" "status = 403 \<or> status = 400"
      by (auto simp: quota_error_def)
    from retry "1.prems"
    have rec: "search_loop env query M (k + 1) (snd (switch_youtube_key env ?st1)) = (r, st')"
      by (simp add: search_loop_retry)
    from "1.IH"[OF retry(1) refl refl st(1) st(2) retry(3) rec]
    show ?thesis by simp
  next
    case last
    with "1.prems" show ?thesis
      by (auto simp: search_loop_last)
  qed
qed

lemma search_frame:
  "search_youtube_video env query st = (r, st') \<Longrightarrow>
   data st' = data st \<and> dumps st' = dumps st \<and> groq_requests st' = groq_requests st \<and>
   stop_reads st' = stop_reads st \<and> global_counter st' = global_counter st \<and>
   anomalies_list st' = anomalies_list st \<and> modified_this_step st' = modified_this_step st \<and>
   sleeps st' = sleeps st"
  by (auto simp: search_youtube_video_def Let_def split: if_splits dest: search_loop_frame)

lemma keeps_refl: "keeps d d"
  by (simp add: keeps_def)

lemma keeps_trans: "keeps a b \<Longrightarrow> keeps b c \<Longrightarrow> keeps a c"
  unfolding keeps_def by (intro conjI allI impI) simp_all

lemma units_of_assign:
  "units_of (assign u q f d) =
     (units_of d)[u := (units_of d ! u)\<lparr>questions :=
        Some ((questions_of (units_of d ! u))[q := f (questions_of (units_of d ! u) ! q)])\<rparr>]"
  by (simp add: assign_def units_of_def Let_def)

lemma question_at_assign:
  "u < length (units_of d) \<Longrightarrow> q < length (questions_of (units_of d ! u)) \<Longrightarrow>
   question_at (assign u' q' f d) u q =
     (if u' = u \<and> q' = q then f (question_at d u q) else question_at d u q)"
proof (cases "u' = u")
  case True
  assume "u < length (units_of d)" "q < length (questions_of (units_of d ! u))"
  with True show ?thesis
    by (cases "q' = q") (simp_all add: question_at_def units_of_assign questions_of_def)
next
  case False
  then show ?thesis
    by (simp add: question_at_def units_of_assign)
qed

lemma length_questions_assign:
  "u < length (units_of d) \<Longrightarrow>
   length (questions_of (units_of (assign u' q' f d) ! u)) = length (questions_of (units_of d ! u))"
  by (cases "u' = u") (simp_all add: units_of_assign questions_of_def)

lemma length_units_assign:
  "length (units_of (assign u' q' f d)) = length (units_of d)"
  by (simp add: units_of_assign)

lemma keeps_assign_video:
  "\<not> truthy_video (video (question_at d u q)) \<Longrightarrow>
   keeps d (assign u q (\<lambda>question. question\<lparr>video := v\<rparr>) d)"
  unfolding keeps_def
  by (auto simp: question_at_assign length_questions_assign length_units_assign truthy_video_def)

lemma keeps_assign_solution:
  "s \<noteq> [] \<Longrightarrow> keeps d (assign u q (\<lambda>question. question\<lparr>solution := Val s\<rparr>) d)"
  unfolding keeps_def
  by (auto simp: question_at_assign length_questions_assign length_units_assign
      truthy_solution_def)

lemma search_and_store_keeps:
  "\<not> truthy_video (video (question_at (data st) u q)) \<Longrightarrow>
   keeps (data st) (data (search_and_store env u q sq st))"
  by (auto simp: search_and_store_def Let_def put_def save_json_file_def
           split: prod.splits option.splits dest!: search_frame intro: keeps_assign_video)

lemma video_step_keeps:
  "keeps (data st) (data (snd (video_step env u q t st)))"
proof -
  have "keeps (data st) (data (snd (video_step env u q t st)))"
    if "truthy_video (video (question_at (data st) u q))"
    using that by (simp add: video_step_def is_set_def Let_def keeps_refl split: prod.splits)
  moreover have "keeps (data st) (data (snd (video_step env u q t st)))"
    if nv: "\<not> truthy_video (video (question_at (data st) u q))"
  proof -
    let ?st1 = "put (Active_step Generating_Query (global_counter st)) (st\<lparr>stop_reads := stop_reads st + 1\<rparr>)"
    obtain sq st2 where g: "get_youtube_search_query env t ?st1 = (sq, st2)"
      by (cases "get_youtube_search_query env t ?st1")
    then have d2: "data st2 = data st"
      by (auto simp: get_youtube_search_query_def put_def dest!: generate_frame)
    let ?st3 = "st2\<lparr>stop_reads := stop_reads st2 + 1\<rparr>"
    have "keeps (data st) (data (search_and_store env u q (the sq) ?st3))"
      using search_and_store_keeps[of ?st3 u q env "the sq"] nv d2 by simp
    with g d2 nv show ?thesis
      by (simp add: video_step_def is_set_def Let_def put_def sleep_def keeps_refl
          split: prod.splits)
  qed
  ultimately show ?thesis by blast
qed

lemma store_solution_keeps:
  "s \<noteq> [] \<Longrightarrow> keeps (data st) (data (store_solution u q s st))"
  by (simp add: store_solution_def Let_def put_def save_json_file_def keeps_assign_solution)

lemma solution_step_keeps:
  "keeps (data st) (data (snd (solution_step env u q ut t st)))"
proof -
  let ?st0 = "st\<lparr>stop_reads := stop_reads st + 1\<rparr>"
  let ?st1 = "put (Active_step Generating_Solution (global_counter ?st0)) ?st0"
  let ?h = "case history (question_at (data ?st1) u q) of None \<Rightarrow> [] | Some h \<Rightarrow> h"
  obtain sol st2 where g: "get_detailed_solution env t ut ?h ?st1 = (sol, st2)"
    by (cases "get_detailed_solution env t ut ?h ?st1")
  then have d2: "data st2 = data st"
    by (auto simp: get_detailed_solution_def put_def dest!: generate_frame)
  let ?st3 = "st2\<lparr>stop_reads := stop_reads st2 + 1\<rparr>"
  have "keeps (data st) (data (store_solution u q (the sol) ?st3))" if "truthy sol"
    using that store_solution_keeps[of "the sol" ?st3 u q] d2
    by (auto simp: truthy_def split: option.splits)
  with g d2 show ?thesis
    by (simp add: solution_step_def is_set_def Let_def put_def sleep_def keeps_refl
        FORCE_REGENERATE_SOLUTIONS_def split: prod.splits)
qed

lemma process_question_keeps:
  "keeps (data st) (data (snd (process_question env tq u ut q st)))"
proof -
  let ?t = "case q_text (question_at (data st) u q) of None \<Rightarrow> py ''No Text'' | Some t \<Rightarrow> t"
  let ?st1 = "(put (Progress (global_counter st + 1) tq (Some (global_counter st + 1)))
      (put (Q_details (D_text ?t)) (st\<lparr>global_counter := global_counter st + 1\<rparr>)))
      \<lparr>modified_this_step := False\<rparr>"
  have d1: "data ?st1 = data st" by (simp add: put_def)
  obtain r1 st2 where v: "video_step env u q ?t ?st1 = (r1, st2)"
    by (cases "video_step env u q ?t ?st1")
  with video_step_keeps[of ?st1 env u q ?t] d1 have k2: "keeps (data st) (data st2)" by simp
  obtain r2 st3 where so: "solution_step env u q ut ?t st2 = (r2, st3)"
    by (cases "solution_step env u q ut ?t st2")
  with solution_step_keeps[of st2 env u q ut ?t] have "keeps (data st2) (data st3)" by simp
  with k2 have k3: "keeps (data st) (data st3)" by (rule keeps_trans)
  from v so k2 k3 show ?thesis
    by (simp add: process_question_def Let_def put_def)
qed

lemma questions_loop_keeps:
  "keeps (data st) (data (snd (questions_loop env tq u ut qs st)))"
proof (induction qs arbitrary: st)
  case Nil
  show ?case by (simp add: keeps_refl)
next
  case (Cons q qs)
  obtain r st1 where p: "process_question env tq u ut q st = (r, st1)"
    by (cases "process_question env tq u ut q st")
  with process_question_keeps[of st env tq u ut q] have "keeps (data st) (data st1)" by simp
  with p Cons.IH[of st1] show ?case
    by (auto intro: keeps_trans)
qed

lemma process_unit_keeps:
  "keeps (data st) (data (snd (process_unit env tq u st)))"
  using questions_loop_keeps[of "st\<lparr>stop_reads := stop_reads st + 1\<rparr>"]
  by (simp add: process_unit_def is_set_def Let_def keeps_refl)

lemma units_loop_keeps:
  "keeps (data st) (data (snd (units_loop env tq us st)))"
proof (induction us arbitrary: st)
  case Nil
  show ?case by (simp add: keeps_refl)
next
  case (Cons u us)
  obtain r st1 where p: "process_unit env tq u st = (r, st1)"
    by (cases "process_unit env tq u st")
  with process_unit_keeps[of st env tq u] have "keeps (data st) (data st1)" by simp
  with p Cons.IH[of st1] show ?case
    by (auto intro: keeps_trans)
qed

lemma process_subject_keeps:
  "keeps d (data (process_subject env d st))"
proof -
  let ?st0 = "st\<lparr>data := d, global_counter := 0, anomalies_list := []\<rparr>"
  let ?st1 = "put (Api_key YouTube (current_yt_key_index ?st0 + 1) (length (YOUTUBE_API_KEYS env)) Active)
     (put (Api_key Groq (current_groq_key_index ?st0 + 1) (length (GROQ_API_KEYS env)) Active)
       (put (Progress 0 (count_total_questions d) None) ?st0))"
  have d1: "data ?st1 = d" by (simp add: put_def)
  obtain r st2 where ul: "units_loop env (count_total_questions d) [0..<length (units_of d)] ?st1 = (r, st2)"
    by (cases "units_loop env (count_total_questions d) [0..<length (units_of d)] ?st1")
  with units_loop_keeps[of ?st1 env "count_total_questions d" "[0..<length (units_of d)]"] d1
  have "keeps d (data st2)" by simp
  with ul show ?thesis
    by (simp add: process_subject_def Let_def is_set_def put_def)
qed

lemma search_and_store_data:
  "data (search_and_store env u q sq st) =
     assign u q (\<lambda>question. question\<lparr>video :=
        (case fst (search_youtube_video env sq
                     (put (Active_step Searching_YouTube (global_counter st))
                        (put (Q_details (D_searchQuery sq)) st))) of
           Some v \<Rightarrow> Val v | None \<Rightarrow> Null)\<rparr>) (data st)"
  by (auto simp: search_and_store_def Let_def put_def save_json_file_def
           split: prod.splits option.splits dest!: search_frame)

lemma video_step_skip:
  "truthy_video (video (question_at (data st) u q)) \<Longrightarrow>
   video_step env u q t st =
     (stop_is_set env (stop_reads st), st\<lparr>stop_reads := stop_reads st + 1\<rparr>)"
  by (simp add: video_step_def is_set_def)

lemma video_step_data:
  "data (snd (video_step env u q t st)) = data st \<or>
   (\<not> truthy_video (video (question_at (data st) u q)) \<and>
    (\<exists>v. data (snd (video_step env u q t st)) =
       assign u q (\<lambda>question. question\<lparr>video := v\<rparr>) (data st)))"
proof (cases "truthy_video (video (question_at (data st) u q))")
  case True
  then show ?thesis by (simp add: video_step_skip)
next
  case False
  let ?st1 = "put (Active_step Generating_Query (global_counter st)) (st\<lparr>stop_reads := stop_reads st + 1\<rparr>)"
  obtain sq st2 where g: "get_youtube_search_query env t ?st1 = (sq, st2)"
    by (cases "get_youtube_search_query env t ?st1")
  then have d2: "data st2 = data st"
    by (auto simp: get_youtube_search_query_def put_def dest!: generate_frame)
  let ?st3 = "st2\<lparr>stop_reads := stop_reads st2 + 1\<rparr>"
  from d2 have "\<exists>v. data (search_and_store env u q (the sq) ?st3) =
      assign u q (\<lambda>question. question\<lparr>video := v\<rparr>) (data st)"
    unfolding search_and_store_data by (simp add: d2) blast
  with g d2 False show ?thesis
    by (simp add: video_step_def is_set_def Let_def put_def sleep_def split: prod.splits)
qed

lemma store_solution_data:
  "data (store_solution u q s st) =
     assign u q (\<lambda>question. question\<lparr>solution := Val s\<rparr>) (data st)"
  by (simp add: store_solution_def Let_def put_def save_json_file_def)

lemma solution_step_data:
  "data (snd (solution_step env u q ut t st)) = data st \<or>
   (\<exists>s. s \<noteq> [] \<and> data (snd (solution_step env u q ut t st)) =
      assign u q (\<lambda>question. question\<lparr>solution := Val s\<rparr>) (data st))"
proof -
  let ?st0 = "st\<lparr>stop_reads := stop_reads st + 1\<rparr>"
  let ?st1 = "put (Active_step Generating_Solution (global_counter ?st0)) ?st0"
  let ?h = "case history (question_at (data ?st1) u q) of None \<Rightarrow> [] | Some h \<Rightarrow> h"
  obtain sol st2 where g: "get_detailed_solution env t ut ?h ?st1 = (sol, st2)"
    by (cases "get_detailed_solution env t ut ?h ?st1")
  then have d2: "data st2 = data st"
    by (auto simp: get_detailed_solution_def put_def dest!: generate_frame)
  let ?st3 = "st2\<lparr>stop_reads := stop_reads st2 + 1\<rparr>"
  have "the sol \<noteq> []" if "truthy sol"
    using that by (auto simp: truthy_def split: option.splits)
  with g d2 show ?thesis
    by (auto simp: solution_step_def is_set_def Let_def put_def sleep_def store_solution_data
        FORCE_REGENERATE_SOLUTIONS_def split: prod.splits)
qed

section \<open>The final status\<close>

text \<open>
  Claim C4 fails on a run that is ended by cancellation. With the stop flag set from the
  start, \<^verbatim>\<open>process_subject\<close> returns at the first checkpoint of the unit loop: the queue
  holds the three opening records and no status record, neither \<^verbatim>\<open>Stopped\<close> nor
  \<^verbatim>\<open>Complete\<close>.
\<close>

theorem cancelled_run_emits_no_status:
  "stop_is_set stopped_env 0 \<and>
   log_queue (process_subject stopped_env (sample_bank Missing) (initial_state stopped_env)) =
     [Progress 0 1 None, Api_key Groq 1 2 Active, Api_key YouTube 1 2 Active] \<and>
   Status Stopped \<notin> set (log_queue
     (process_subject stopped_env (sample_bank Missing) (initial_state stopped_env)))"
proof -
  have "log_queue (process_subject stopped_env (sample_bank Missing) (initial_state stopped_env)) =
     [Progress 0 1 None, Api_key Groq 1 2 Active, Api_key YouTube 1 2 Active]"
    by (simp add: process_subject_def process_unit_def is_set_def put_def Let_def
        count_total_questions_def units_of_def questions_of_def sample_bank_def stopped_env_def
        sample_env_def initial_state_def upt_rec)
  then show ?thesis
    by (simp add: stopped_env_def)
qed

section \<open>Anomalies\<close>

lemma strip_replicate: "\<not> isspace c \<Longrightarrow> strip (replicate n c) = replicate n c"
  by (simp add: strip_def)

lemma store_solution_question:
  "u < length (units_of (data st)) \<Longrightarrow> q < length (questions_of (units_of (data st) ! u)) \<Longrightarrow>
   solution (question_at (data (store_solution u q s st)) u q) = Val s"
  by (simp add: store_solution_data question_at_assign)

lemma solution_step_stores:
  assumes "\<not> stop_is_set env (stop_reads st)"
    and "get_detailed_solution env t ut
           (case history (question_at (data st) u q) of None \<Rightarrow> [] | Some h \<Rightarrow> h)
           (put (Active_step Generating_Solution (global_counter st))
              (st\<lparr>stop_reads := stop_reads st + 1\<rparr>)) = (Some s, st2)"
    and "s \<noteq> []"
    and "\<not> stop_is_set env (stop_reads st2)"
  shows "solution_step env u q ut t st =
     (False, sleep 1 (put (Q_details D_solutionTime)
        (store_solution u q s (st2\<lparr>stop_reads := stop_reads st2 + 1\<rparr>))))"
  using assms
  by (simp add: solution_step_def is_set_def Let_def FORCE_REGENERATE_SOLUTIONS_def put_def
      truthy_def)

lemma attempts_first_completion:
  "groq_reply env (length (groq_requests st)) = Completion c \<Longrightarrow> 0 < N \<Longrightarrow>
   attempts env m kw N k st =
     (Some (strip c), st\<lparr>groq_requests := groq_requests st @ [(m, kw)]\<rparr>)"
  by (cases N) (simp_all add: Let_def)

text \<open>
  Claim C8. When a generated solution is stored, the text is assigned to the question
  whatever its length. If it is longer than 8000 characters an entry is appended to
  \<^verbatim>\<open>anomalies_list\<close> and an anomaly record follows the character count on the queue;
  if it has at most 8000 characters the list is unchanged and only the character count
  is put. The solution step stores every non-empty text the generation returns unless
  the run is cancelled at a checkpoint. The concrete run below has 8001 and 8000
  characters.
\<close>

theorem long_solution_flagged_and_stored:
  "(u < length (units_of (data st)) \<and> q < length (questions_of (units_of (data st) ! u)) \<longrightarrow>
      solution (question_at (data (store_solution u q s st)) u q) = Val s) \<and>
   (length s > 8000 \<longrightarrow>
      anomalies_list (store_solution u q s st) =
        anomalies_list st @ [(u + 1, q + 1, length s)] \<and>
      log_queue (store_solution u q s st) =
        log_queue st @ [Q_details (D_charCount (length s)), Q_details (D_anomaly (length s))]) \<and>
   (length s \<le> 8000 \<longrightarrow>
      anomalies_list (store_solution u q s st) = anomalies_list st \<and>
      log_queue (store_solution u q s st) =
        log_queue st @ [Q_details (D_charCount (length s))]) \<and>
   (\<not> stop_is_set env (stop_reads st) \<and>
    get_detailed_solution env t ut
      (case history (question_at (data st) u q) of None \<Rightarrow> [] | Some h \<Rightarrow> h)
      (put (Active_step Generating_Solution (global_counter st))
         (st\<lparr>stop_reads := stop_reads st + 1\<rparr>)) = (Some s, st2) \<and>
    s \<noteq> [] \<and> \<not> stop_is_set env (stop_reads st2) \<longrightarrow>
      solution_step env u q ut t st =
        (False, sleep 1 (put (Q_details D_solutionTime)
           (store_solution u q s (st2\<lparr>stop_reads := stop_reads st2 + 1\<rparr>)))))"
  using store_solution_question[of u st q s] solution_step_stores[of env st t ut u q s st2]
  by (simp add: store_solution_def Let_def put_def save_json_file_def)

theorem long_solution_flagged_and_stored_witness:
  "anomalies_list (snd (solution_step (long_env 8001) 0 0 (py ''U'') (py ''Q'')
      ((initial_state (long_env 8001))\<lparr>data := sample_bank Missing\<rparr>))) = [(1, 1, 8001)] \<and>
   solution (question_at (data (snd (solution_step (long_env 8001) 0 0 (py ''U'') (py ''Q'')
      ((initial_state (long_env 8001))\<lparr>data := sample_bank Missing\<rparr>)))) 0 0) =
     Val (replicate 8001 97) \<and>
   anomalies_list (snd (solution_step (long_env 8000) 0 0 (py ''U'') (py ''Q'')
      ((initial_state (long_env 8000))\<lparr>data := sample_bank Missing\<rparr>))) = [] \<and>
   solution (question_at (data (snd (solution_step (long_env 8000) 0 0 (py ''U'') (py ''Q'')
      ((initial_state (long_env 8000))\<lparr>data := sample_bank Missing\<rparr>)))) 0 0) =
     Val (replicate 8000 97)"
proof -
  have sp: "strip (replicate n 97) = replicate n 97" for n
    by (rule strip_replicate) (simp add: isspace_def)
  have run: "anomalies_list (snd (solution_step (long_env n) 0 0 (py ''U'') (py ''Q'')
        ((initial_state (long_env n))\<lparr>data := sample_bank Missing\<rparr>))) =
        (if n > 8000 then [(1, 1, n)] else []) \<and>
      solution (question_at (data (snd (solution_step (long_env n) 0 0 (py ''U'') (py ''Q'')
        ((initial_state (long_env n))\<lparr>data := sample_bank Missing\<rparr>)))) 0 0) =
        Val (replicate n 97)"
    if n: "0 < n" for n
  proof -
    let ?st = "(initial_state (long_env n))\<lparr>data := sample_bank Missing\<rparr>"
    let ?h = "case history (question_at (data ?st) 0 0) of None \<Rightarrow> [] | Some h \<Rightarrow> h"
    let ?st1 = "put (Active_step Generating_Solution (global_counter ?st))
         (?st\<lparr>stop_reads := stop_reads ?st + 1\<rparr>)"
    let ?g = "get_detailed_solution (long_env n) (py ''Q'') (py ''U'') ?h ?st1"
    let ?st3 = "(snd ?g)\<lparr>stop_reads := stop_reads (snd ?g) + 1\<rparr>"
    have cl: "client ?st1 \<noteq> None"
      by (simp add: put_def initial_state_def long_env_def sample_env_def)
    have "groq_reply (long_env n) (length (groq_requests ?st1)) = Completion (replicate n 97)"
      by (simp add: long_env_def)
    then have g1: "fst ?g = Some (replicate n 97)"
      using cl
      by (simp add: get_detailed_solution_def generate_with_retry_def attempts_first_completion
          max_retries_default_def sp)
    then have g: "?g = (Some (replicate n 97), snd ?g)"
      by (metis prod.collapse)
    have fr: "data (snd ?g) = sample_bank Missing" "anomalies_list (snd ?g) = []"
      using generate_frame[OF prod.collapse[symmetric], of "long_env n"
          "solution_messages (py ''Q'') (py ''U'') ?h" "Some 4096" max_retries_default ?st1]
      by (simp_all add: get_detailed_solution_def put_def initial_state_def)
    have ns: "\<not> stop_is_set (long_env n) k" for k
      by (simp add: long_env_def sample_env_def)
    have ne: "replicate n (97::nat) \<noteq> []"
      using n by simp
    note at_store = long_solution_flagged_and_stored[where u = 0 and q = 0 and
        s = "replicate n 97" and st = ?st3 and env = "long_env n" and t = "py ''Q''" and
        ut = "py ''U''" and ?st2.0 = "snd ?g"]
    note at_step = long_solution_flagged_and_stored[where u = 0 and q = 0 and
        s = "replicate n 97" and st = ?st and env = "long_env n" and t = "py ''Q''" and
        ut = "py ''U''" and ?st2.0 = "snd ?g"]
    from at_step g ns ne have step: "solution_step (long_env n) 0 0 (py ''U'') (py ''Q'') ?st =
        (False, sleep 1 (put (Q_details D_solutionTime)
           (store_solution 0 0 (replicate n 97) ?st3)))"
      by blast
    have valid: "0 < length (units_of (data ?st3)) \<and>
        0 < length (questions_of (units_of (data ?st3) ! 0))"
    proof -
      have "data ?st3 = sample_bank Missing" using fr by simp
      then show ?thesis
        by (simp add: sample_bank_def units_of_def questions_of_def)
    qed
    from at_store valid have sol: "solution (question_at (data (store_solution 0 0 (replicate n 97) ?st3)) 0 0) =
        Val (replicate n 97)"
      by blast
    have a3: "anomalies_list ?st3 = []" using fr by simp
    from at_store have
      "(length (replicate n (97::nat)) > 8000 \<longrightarrow>
          anomalies_list (store_solution 0 0 (replicate n 97) ?st3) =
            anomalies_list ?st3 @ [(0 + 1, 0 + 1, length (replicate n (97::nat)))]) \<and>
       (length (replicate n (97::nat)) \<le> 8000 \<longrightarrow>
          anomalies_list (store_solution 0 0 (replicate n 97) ?st3) = anomalies_list ?st3)"
      by blast
    then have an: "anomalies_list (store_solution 0 0 (replicate n 97) ?st3) =
        (if n > 8000 then [(1, 1, n)] else [])"
      unfolding a3 by (cases "n > 8000") simp_all
    from sol an show ?thesis
      unfolding step by (simp add: sleep_def put_def)
  qed
  from run[of 8001] run[of 8000] show ?thesis by simp
qed

section \<open>Resuming: the video step\<close>

lemma strip_ok: "strip (py ''ok'') = py ''ok''"
  by (simp add: strip_def py_def isspace_def)

lemma py_ok_ne: "py ''ok'' \<noteq> []"
  by (simp add: py_def)

text \<open>
  Claim C1 as stated fails for the explicit null. On a bank whose only question holds
  \<^verbatim>\<open>"video": null\<close>, a run generates a search query, sends it to the video search and
  replaces the null by the video found: \<^verbatim>\<open>not question.get('video')\<close> is true for a
  missing key and for null alike.
\<close>

theorem null_video_is_searched_again:
  "video (question_at (sample_bank Null) 0 0) = Null \<and>
   yt_requests (process_subject sample_env (sample_bank Null) (initial_state sample_env)) =
     [py ''ok''] \<and>
   groq_requests (process_subject sample_env (sample_bank Null) (initial_state sample_env)) ! 0 =
     (query_messages (py ''Q''), None) \<and>
   video (question_at
     (data (process_subject sample_env (sample_bank Null) (initial_state sample_env))) 0 0) =
     Val \<lparr>videoId = py ''v1'', title = py ''T'', channelTitle = py ''C'', searchQuery = py ''ok''\<rparr>"
proof -
  let ?st0 = "initial_state sample_env"
  have r: "groq_reply sample_env k = Completion (py ''ok'')"
     "yt_reply sample_env k = Items [sample_item]" "\<not> stop_is_set sample_env k" for k
    by (simp_all add: sample_env_def)
  have c: "client ?st0 \<noteq> None" "youtube ?st0 \<noteq> None" "YOUTUBE_API_KEYS sample_env \<noteq> []"
    by (simp_all add: initial_state_def sample_env_def)
  show ?thesis
    using c
    by (simp add: process_subject_def process_unit_def process_question_def video_step_def
        solution_step_def search_and_store_def store_solution_def get_youtube_search_query_def
        get_detailed_solution_def generate_with_retry_def search_youtube_video_def
        search_loop_last quota_error_def attempts_first_completion r strip_ok py_ok_ne
        is_set_def put_def sleep_def save_json_file_def count_total_questions_def units_of_def
        questions_of_def question_at_def assign_def truthy_def truthy_video_def
        truthy_solution_def FORCE_REGENERATE_SOLUTIONS_def max_retries_default_def
        initial_state_def Let_def sample_bank_def sample_item_def upt_rec)
qed

lemma generate_requests:
  "generate_with_retry env m kw N st = (r, st') \<Longrightarrow>
   \<exists>n. groq_requests st' = groq_requests st @ replicate n (m, kw)"
proof (cases "client st = None")
  case True
  assume "generate_with_retry env m kw N st = (r, st')"
  with True have "st' = st" by (simp add: generate_with_retry_def)
  then show ?thesis by (intro exI[of _ 0]) simp
next
  case False
  assume "generate_with_retry env m kw N st = (r, st')"
  with False have "attempts env m kw N 0 st = (r, st')"
    by (auto simp: generate_with_retry_def split: if_splits)
  from attempts_requests[OF this] show ?thesis by blast
qed

lemma generate_first_request:
  assumes "generate_with_retry env m kw N st = (r, st')" "client st \<noteq> None" "0 < N"
  shows "length (groq_requests st) < length (groq_requests st') \<and>
     groq_requests st' ! length (groq_requests st) = (m, kw)"
proof -
  from assms obtain N' where N: "N = Suc N'" by (cases N) auto
  from assms have att: "attempts env m kw (Suc N') 0 st = (r, st')"
    by (auto simp: generate_with_retry_def N split: if_splits)
  from attempts_Suc_sends[OF att] have lt: "length (groq_requests st) < length (groq_requests st')"
    by simp
  from attempts_requests[OF att] obtain n where
    n: "groq_requests st' = groq_requests st @ replicate n (m, kw)" by blast
  with lt have "0 < n" by simp
  with n have "groq_requests st' ! length (groq_requests st) = (m, kw)"
    by (simp add: nth_append)
  with lt show ?thesis by simp
qed

lemma search_and_store_requests:
  "groq_requests (search_and_store env u q sq st) = groq_requests st"
  by (auto simp: search_and_store_def Let_def put_def save_json_file_def
           split: prod.splits option.splits dest!: search_frame)

lemma store_solution_requests:
  "groq_requests (store_solution u q s st) = groq_requests st"
  "yt_requests (store_solution u q s st) = yt_requests st"
  by (simp_all add: store_solution_def Let_def put_def save_json_file_def)

lemma video_step_queries:
  assumes nv: "\<not> truthy_video (video (question_at (data st) u q))"
    and ns: "\<not> stop_is_set env (stop_reads st)"
    and cl: "client st \<noteq> None"
  shows "length (groq_requests st) < length (groq_requests (snd (video_step env u q t st))) \<and>
     groq_requests (snd (video_step env u q t st)) ! length (groq_requests st) =
       (query_messages t, None)"
proof -
  let ?st1 = "put (Active_step Generating_Query (global_counter st)) (st\<lparr>stop_reads := stop_reads st + 1\<rparr>)"
  obtain sq st2 where g: "get_youtube_search_query env t ?st1 = (sq, st2)"
    by (cases "get_youtube_search_query env t ?st1")
  then have "generate_with_retry env (query_messages t) None max_retries_default ?st1 = (sq, st2)"
    by (simp add: get_youtube_search_query_def)
  from generate_first_request[OF this] cl
  have first: "length (groq_requests st) < length (groq_requests st2) \<and>
     groq_requests st2 ! length (groq_requests st) = (query_messages t, None)"
    by (simp add: put_def max_retries_default_def)
  let ?st3 = "st2\<lparr>stop_reads := stop_reads st2 + 1\<rparr>"
  have "groq_requests (snd (video_step env u q t st)) = groq_requests st2"
    using g nv ns
    by (simp add: video_step_def is_set_def Let_def put_def sleep_def search_and_store_requests
        split: prod.splits)
  with first show ?thesis by simp
qed

lemma solution_step_requests:
  "yt_requests (snd (solution_step env u q ut t st)) = yt_requests st \<and>
   (\<exists>n. groq_requests (snd (solution_step env u q ut t st)) =
      groq_requests st @ replicate n
        (solution_messages t ut
           (case history (question_at (data st) u q) of None \<Rightarrow> [] | Some h \<Rightarrow> h), Some 4096))"
proof -
  let ?st0 = "st\<lparr>stop_reads := stop_reads st + 1\<rparr>"
  let ?st1 = "put (Active_step Generating_Solution (global_counter ?st0)) ?st0"
  let ?h = "case history (question_at (data st) u q) of None \<Rightarrow> [] | Some h \<Rightarrow> h"
  obtain sol st2 where g: "get_detailed_solution env t ut ?h ?st1 = (sol, st2)"
    by (cases "get_detailed_solution env t ut ?h ?st1")
  then have gen: "generate_with_retry env (solution_messages t ut ?h) (Some 4096)
      max_retries_default ?st1 = (sol, st2)"
    by (simp add: get_detailed_solution_def)
  from generate_frame[OF gen] have y2: "yt_requests st2 = yt_requests st"
    by (simp add: put_def)
  from generate_requests[OF gen] obtain n where
    n: "groq_requests st2 = groq_requests st @ replicate n (solution_messages t ut ?h, Some 4096)"
    by (auto simp: put_def)
  have "groq_requests (snd (solution_step env u q ut t st)) = groq_requests st \<or>
      groq_requests (snd (solution_step env u q ut t st)) = groq_requests st2"
    using g
    by (simp add: solution_step_def is_set_def Let_def put_def sleep_def store_solution_requests
        FORCE_REGENERATE_SOLUTIONS_def split: prod.splits)
  then have "\<exists>k. groq_requests (snd (solution_step env u q ut t st)) =
      groq_requests st @ replicate k (solution_messages t ut ?h, Some 4096)"
  proof
    assume "groq_requests (snd (solution_step env u q ut t st)) = groq_requests st"
    then show ?thesis by (intro exI[of _ 0]) simp
  next
    assume "groq_requests (snd (solution_step env u q ut t st)) = groq_requests st2"
    with n show ?thesis by (intro exI[of _ n]) simp
  qed
  moreover have "yt_requests (snd (solution_step env u q ut t st)) = yt_requests st"
    using g y2
    by (simp add: solution_step_def is_set_def Let_def put_def sleep_def store_solution_requests
        FORCE_REGENERATE_SOLUTIONS_def split: prod.splits)
  ultimately show ?thesis by simp
qed

lemma process_question_found_video:
  assumes tv: "truthy_video (video (question_at (data st) u q))"
  shows "yt_requests (snd (process_question env tq u ut q st)) = yt_requests st \<and>
     (\<forall>request\<in>set (drop (length (groq_requests st))
         (groq_requests (snd (process_question env tq u ut q st)))). snd request = Some 4096)"
proof -
  let ?t = "case q_text (question_at (data st) u q) of None \<Rightarrow> py ''No Text'' | Some t \<Rightarrow> t"
  let ?st1 = "(put (Progress (global_counter st + 1) tq (Some (global_counter st + 1)))
      (put (Q_details (D_text ?t)) (st\<lparr>global_counter := global_counter st + 1\<rparr>)))
      \<lparr>modified_this_step := False\<rparr>"
  let ?st2 = "?st1\<lparr>stop_reads := stop_reads ?st1 + 1\<rparr>"
  have d1: "data ?st1 = data st" by (simp add: put_def)
  with tv have v: "video_step env u q ?t ?st1 = (stop_is_set env (stop_reads ?st1), ?st2)"
    by (simp add: video_step_skip)
  have rq: "yt_requests ?st2 = yt_requests st" "groq_requests ?st2 = groq_requests st"
    by (simp_all add: put_def)
  from solution_step_requests[of env u q ut ?t ?st2] rq obtain n where
    so: "yt_requests (snd (solution_step env u q ut ?t ?st2)) = yt_requests st"
      "groq_requests (snd (solution_step env u q ut ?t ?st2)) =
         groq_requests st @ replicate n
           (solution_messages ?t ut
             (case history (question_at (data ?st2) u q) of None \<Rightarrow> [] | Some h \<Rightarrow> h), Some 4096)"
    by auto
  have "snd (process_question env tq u ut q st) = ?st2 \<or>
      snd (process_question env tq u ut q st) = snd (solution_step env u q ut ?t ?st2) \<or>
      snd (process_question env tq u ut q st) =
        put (Q_details D_totalTime) (snd (solution_step env u q ut ?t ?st2))"
    using v
    by (simp add: process_question_def Let_def put_def split: prod.splits)
  then show ?thesis
    using rq so by (auto simp: put_def)
qed

text \<open>
  Claim C1, amended. For every question whose \<^verbatim>\<open>video\<close> field holds a video reference,
  the video step is skipped: it only reads the stop flag, and the whole processing of
  that question sends no search request and no generation request other than solution
  requests. A question whose \<^verbatim>\<open>video\<close> is the explicit null or is missing is searched:
  unless the run is cancelled or no client is initialised, the step sends the query
  request for the question text.
\<close>

theorem found_video_is_not_searched_again:
  "(video (question_at (data st) u q) = Val v \<longrightarrow>
      video_step env u q t st =
        (stop_is_set env (stop_reads st), st\<lparr>stop_reads := stop_reads st + 1\<rparr>) \<and>
      yt_requests (snd (process_question env tq u ut q st)) = yt_requests st \<and>
      (\<forall>request\<in>set (drop (length (groq_requests st))
          (groq_requests (snd (process_question env tq u ut q st)))). snd request = Some 4096)) \<and>
   ((video (question_at (data st) u q) = Null \<or> video (question_at (data st) u q) = Missing) \<and>
    \<not> stop_is_set env (stop_reads st) \<and> client st \<noteq> None \<longrightarrow>
      length (groq_requests st) < length (groq_requests (snd (video_step env u q t st))) \<and>
      groq_requests (snd (video_step env u q t st)) ! length (groq_requests st) =
        (query_messages t, None))"
proof -
  have a: "truthy_video (video (question_at (data st) u q))"
    if "video (question_at (data st) u q) = Val v"
    using that by (simp add: truthy_video_def)
  have b: "\<not> truthy_video (video (question_at (data st) u q))"
    if "video (question_at (data st) u q) = Null \<or> video (question_at (data st) u q) = Missing"
    using that by (auto simp: truthy_video_def)
  show ?thesis
    using a b video_step_skip[of st u q env t] process_question_found_video[of st u q env tq ut]
      video_step_queries[of st u q env t]
    by blast
qed

theorem found_video_is_not_searched_again_witness:
  "video (question_at solved_bank 0 0) = Val sample_ref \<and>
   yt_requests (snd (process_question sample_env 1 0 (py ''U'') 0
      ((initial_state sample_env)\<lparr>data := solved_bank\<rparr>))) = [] \<and>
   video (question_at (sample_bank Missing) 0 0) = Missing \<and>
   groq_requests (snd (video_step sample_env 0 0 (py ''Q'')
      ((initial_state sample_env)\<lparr>data := sample_bank Missing\<rparr>))) ! 0 =
     (query_messages (py ''Q''), None)"
proof -
  let ?s1 = "(initial_state sample_env)\<lparr>data := solved_bank\<rparr>"
  let ?s2 = "(initial_state sample_env)\<lparr>data := sample_bank Missing\<rparr>"
  have v1: "video (question_at (data ?s1) 0 0) = Val sample_ref"
    by (simp add: solved_bank_def question_at_def units_of_def questions_of_def)
  have v2: "video (question_at (data ?s2) 0 0) = Missing"
    by (simp add: sample_bank_def question_at_def units_of_def questions_of_def)
  have c: "\<not> stop_is_set sample_env (stop_reads ?s2)" "client ?s2 \<noteq> None"
    "yt_requests ?s1 = []" "length (groq_requests ?s2) = 0"
    by (simp_all add: sample_env_def initial_state_def)
  from found_video_is_not_searched_again[of ?s1 0 0 sample_ref sample_env "py ''Q''" 1 "py ''U''"] v1
  have "yt_requests (snd (process_question sample_env 1 0 (py ''U'') 0 ?s1)) = yt_requests ?s1"
    by blast
  moreover
  from found_video_is_not_searched_again[of ?s2 0 0 sample_ref sample_env "py ''Q''" 1 "py ''U''"] v2 c(1,2)
  have "groq_requests (snd (video_step sample_env 0 0 (py ''Q'') ?s2)) ! length (groq_requests ?s2) =
      (query_messages (py ''Q''), None)"
    by blast
  ultimately show ?thesis
    using v1 v2 c(3,4) by simp
qed

section \<open>Snapshots\<close>








lemma flushed_frame [simp]:
  "flushed d ds (put e st) = flushed d ds st"
  "flushed d ds (sleep n st) = flushed d ds st"
  "flushed d ds (st\<lparr>stop_reads := a\<rparr>) = flushed d ds st"
  "flushed d ds (st\<lparr>global_counter := b\<rparr>) = flushed d ds st"
  "flushed d ds (st\<lparr>modified_this_step := c\<rparr>) = flushed d ds st"
  by (simp_all add: flushed_def put_def sleep_def)

lemma put_fields [simp]:
  "data (put e st) = data st"
  "dumps (put e st) = dumps st"
  "global_counter (put e st) = global_counter st"
  "modified_this_step (put e st) = modified_this_step st"
  "stop_reads (put e st) = stop_reads st"
  "current_groq_key_index (put e st) = current_groq_key_index st"
  "current_yt_key_index (put e st) = current_yt_key_index st"
  by (simp_all add: put_def)












section \<open>The generation client and its callers\<close>

lemma generation_trace:
  assumes "client st \<noteq> None"
    and "generate_with_retry env messages_list max_tokens max_retries st = (r, st')"
  shows "length (replies env st st') \<le> max_retries \<and>
     groq_requests st' =
       groq_requests st @ replicate (length (replies env st st')) (messages_list, max_tokens) \<and>
     sleeps st' =
       sleeps st @ spec_backoff (length (GROQ_API_KEYS env)) 0 (replies env st st') \<and>
     (GROQ_API_KEYS env \<noteq> [] \<longrightarrow>
        current_groq_key_index st' =
          (advance (length (GROQ_API_KEYS env)) ^^ count_list (replies env st st') RateLimitError)
            (current_groq_key_index st)) \<and>
     (r = None \<longleftrightarrow>
        length (replies env st st') = max_retries \<and>
        (\<forall>reply\<in>set (replies env st st'). \<forall>t. reply \<noteq> Completion t)) \<and>
     (\<forall>t. r = Some t \<longrightarrow>
        replies env st st' \<noteq> [] \<and>
        (\<exists>c. last (replies env st st') = Completion c \<and> t = strip c)) \<and>
     max_retries_default = 10"
proof -
  from assms have att: "attempts env messages_list max_tokens max_retries 0 st = (r, st')"
    by (auto simp: generate_with_retry_def split: if_splits)
  from attempts_requests[OF att] obtain n where
    n: "n \<le> max_retries" "groq_requests st' = groq_requests st @ replicate n (messages_list, max_tokens)"
    by blast
  then have len: "length (replies env st st') = n"
    by (simp add: replies_def)
  have res: "case r of
      None \<Rightarrow> length (groq_requests st') = length (groq_requests st) + max_retries \<and>
              (\<forall>reply\<in>set (replies env st st'). \<forall>t. reply \<noteq> Completion t)
    | Some t \<Rightarrow> replies env st st' \<noteq> [] \<and>
              (\<exists>c. last (replies env st st') = Completion c \<and> t = strip c)"
    by (rule attempts_result[OF att])
  have none: "r = None \<longleftrightarrow>
        length (replies env st st') = max_retries \<and>
        (\<forall>reply\<in>set (replies env st st'). \<forall>t. reply \<noteq> Completion t)"
  proof (cases r)
    case None
    with res n len show ?thesis by simp
  next
    case (Some t)
    with res obtain c where "replies env st st' \<noteq> []" "last (replies env st st') = Completion c"
      by auto
    then have "Completion c \<in> set (replies env st st')"
      by (metis last_in_set)
    with Some show ?thesis by auto
  qed
  have some: "\<forall>t. r = Some t \<longrightarrow>
        replies env st st' \<noteq> [] \<and>
        (\<exists>c. last (replies env st st') = Completion c \<and> t = strip c)"
    using res by auto
  show ?thesis
    using n len attempts_sleeps[OF att] attempts_cursor[OF att] none some
    by (simp add: max_retries_default_def)
qed

lemma attempts_all_errors:
  "(\<And>n. groq_reply env n = GroqError) \<Longrightarrow> fst (attempts env m kw N k st) = None"
  by (induction N arbitrary: st) (simp_all add: Let_def)

lemma solution_step_failed:
  assumes "\<not> truthy (fst (get_detailed_solution env t ut
             (case history (question_at (data st) u q) of None \<Rightarrow> [] | Some h \<Rightarrow> h)
             (put (Active_step Generating_Solution (global_counter st))
                (st\<lparr>stop_reads := stop_reads st + 1\<rparr>))))"
  shows "data (snd (solution_step env u q ut t st)) = data st \<and>
     dumps (snd (solution_step env u q ut t st)) = dumps st"
proof -
  let ?st1 = "put (Active_step Generating_Solution (global_counter st))
                (st\<lparr>stop_reads := stop_reads st + 1\<rparr>)"
  let ?h = "case history (question_at (data st) u q) of None \<Rightarrow> [] | Some h \<Rightarrow> h"
  obtain sol st2 where g: "get_detailed_solution env t ut ?h ?st1 = (sol, st2)"
    by (cases "get_detailed_solution env t ut ?h ?st1")
  then have d2: "data st2 = data st" "dumps st2 = dumps st"
    by (auto simp: get_detailed_solution_def dest!: generate_frame)
  from g assms have "\<not> truthy sol" by simp
  with g d2 show ?thesis
    by (simp add: solution_step_def is_set_def Let_def sleep_def FORCE_REGENERATE_SOLUTIONS_def)
qed

lemma solution_step_continues:
  assumes "\<not> stop_is_set env (stop_reads st)" "\<not> stop_is_set env (stop_reads st + 1)"
  shows "fst (solution_step env u q ut t st) = False"
proof -
  let ?st1 = "put (Active_step Generating_Solution (global_counter st))
                (st\<lparr>stop_reads := stop_reads st + 1\<rparr>)"
  let ?h = "case history (question_at (data st) u q) of None \<Rightarrow> [] | Some h \<Rightarrow> h"
  obtain sol st2 where g: "get_detailed_solution env t ut ?h ?st1 = (sol, st2)"
    by (cases "get_detailed_solution env t ut ?h ?st1")
  then have "stop_reads st2 = stop_reads st + 1"
    by (auto simp: get_detailed_solution_def dest!: generate_frame)
  with g assms show ?thesis
    by (simp add: solution_step_def is_set_def Let_def FORCE_REGENERATE_SOLUTIONS_def)
qed

lemma video_step_query_failed:
  assumes "\<not> truthy (fst (get_youtube_search_query env t
             (put (Active_step Generating_Query (global_counter st))
                (st\<lparr>stop_reads := stop_reads st + 1\<rparr>))))"
  shows "data (snd (video_step env u q t st)) = data st \<and>
     yt_requests (snd (video_step env u q t st)) = yt_requests st \<and>
     dumps (snd (video_step env u q t st)) = dumps st"
proof -
  let ?st1 = "put (Active_step Generating_Query (global_counter st))
                (st\<lparr>stop_reads := stop_reads st + 1\<rparr>)"
  obtain sq st2 where g: "get_youtube_search_query env t ?st1 = (sq, st2)"
    by (cases "get_youtube_search_query env t ?st1")
  then have d2: "data st2 = data st" "dumps st2 = dumps st" "yt_requests st2 = yt_requests st"
    by (auto simp: get_youtube_search_query_def put_def dest!: generate_frame)
  from g assms have "\<not> truthy sq" by simp
  with g d2 show ?thesis
    by (simp add: video_step_def is_set_def Let_def sleep_def put_def)
qed

lemma video_step_continues:
  assumes "\<not> stop_is_set env (stop_reads st)" "\<not> stop_is_set env (stop_reads st + 1)"
  shows "fst (video_step env u q t st) = False"
proof -
  let ?st1 = "put (Active_step Generating_Query (global_counter st))
                (st\<lparr>stop_reads := stop_reads st + 1\<rparr>)"
  obtain sq st2 where g: "get_youtube_search_query env t ?st1 = (sq, st2)"
    by (cases "get_youtube_search_query env t ?st1")
  then have "stop_reads st2 = stop_reads st + 1"
    by (auto simp: get_youtube_search_query_def dest!: generate_frame)
  with g assms show ?thesis
    by (simp add: video_step_def is_set_def Let_def)
qed

text \<open>
  Claim C2, amended. For every call of \<^verbatim>\<open>generate_with_retry\<close> with an initialised
  client: at most \<open>max_retries\<close> requests are sent (10 by default), all with the given
  messages; the seconds slept are those of \<open>spec_backoff\<close> over the answers received,
  that is 20 and a reset once the rotations reach the number of keys, else 1, after a
  rate-limit signal, and 5 with the counter untouched after any other error; the key
  cursor has advanced once for each rate-limit signal and for nothing else; the result
  is \<open>None\<close> exactly when all \<open>max_retries\<close> requests were sent and none was answered by
  a completion; otherwise it is the stripped text of the last answer. The two callers
  are this client with the default of 10 attempts, and \<open>None\<close> is not fatal to them:
  the solution step whose generation returns \<open>None\<close> leaves the document and the
  snapshots as they were, and so does the video step whose query generation returns
  \<open>None\<close>, which sends no search either; unless the stop flag is set at one of the two
  checkpoints of the step, the step ends without ending the walk.
\<close>

theorem generation_retry_policy:
  assumes "client st \<noteq> None"
    and "generate_with_retry env messages_list max_tokens max_retries st = (r, st')"
  shows "length (replies env st st') \<le> max_retries \<and>
     groq_requests st' =
       groq_requests st @ replicate (length (replies env st st')) (messages_list, max_tokens) \<and>
     sleeps st' =
       sleeps st @ spec_backoff (length (GROQ_API_KEYS env)) 0 (replies env st st') \<and>
     (GROQ_API_KEYS env \<noteq> [] \<longrightarrow>
        current_groq_key_index st' =
          (advance (length (GROQ_API_KEYS env)) ^^ count_list (replies env st st') RateLimitError)
            (current_groq_key_index st)) \<and>
     (r = None \<longleftrightarrow>
        length (replies env st st') = max_retries \<and>
        (\<forall>reply\<in>set (replies env st st'). \<forall>t. reply \<noteq> Completion t)) \<and>
     (\<forall>t. r = Some t \<longrightarrow>
        replies env st st' \<noteq> [] \<and>
        (\<exists>c. last (replies env st st') = Completion c \<and> t = strip c)) \<and>
     max_retries_default = 10 \<and>
     get_detailed_solution env question_text unit_title marks_history wst =
       generate_with_retry env (solution_messages question_text unit_title marks_history)
         (Some 4096) max_retries_default wst \<and>
     get_youtube_search_query env question_text wst =
       generate_with_retry env (query_messages question_text) None max_retries_default wst \<and>
     (fst (get_detailed_solution env question_text unit_title
             (case history (question_at (data wst) u q) of None \<Rightarrow> [] | Some h \<Rightarrow> h)
             (put (Active_step Generating_Solution (global_counter wst))
                (wst\<lparr>stop_reads := stop_reads wst + 1\<rparr>))) = None \<longrightarrow>
        data (snd (solution_step env u q unit_title question_text wst)) = data wst \<and>
        dumps (snd (solution_step env u q unit_title question_text wst)) = dumps wst \<and>
        (\<not> stop_is_set env (stop_reads wst) \<and> \<not> stop_is_set env (stop_reads wst + 1) \<longrightarrow>
           fst (solution_step env u q unit_title question_text wst) = False)) \<and>
     (fst (get_youtube_search_query env question_text
             (put (Active_step Generating_Query (global_counter wst))
                (wst\<lparr>stop_reads := stop_reads wst + 1\<rparr>))) = None \<longrightarrow>
        data (snd (video_step env u q question_text wst)) = data wst \<and>
        yt_requests (snd (video_step env u q question_text wst)) = yt_requests wst \<and>
        dumps (snd (video_step env u q question_text wst)) = dumps wst \<and>
        (\<not> stop_is_set env (stop_reads wst) \<and> \<not> stop_is_set env (stop_reads wst + 1) \<longrightarrow>
           fst (video_step env u q question_text wst) = False))"
proof -
  have sol: "data (snd (solution_step env u q unit_title question_text wst)) = data wst \<and>
        dumps (snd (solution_step env u q unit_title question_text wst)) = dumps wst"
    if "fst (get_detailed_solution env question_text unit_title
             (case history (question_at (data wst) u q) of None \<Rightarrow> [] | Some h \<Rightarrow> h)
             (put (Active_step Generating_Solution (global_counter wst))
                (wst\<lparr>stop_reads := stop_reads wst + 1\<rparr>))) = None"
    using that by (intro solution_step_failed) (simp add: truthy_def)
  have vid: "data (snd (video_step env u q question_text wst)) = data wst \<and>
        yt_requests (snd (video_step env u q question_text wst)) = yt_requests wst \<and>
        dumps (snd (video_step env u q question_text wst)) = dumps wst"
    if "fst (get_youtube_search_query env question_text
             (put (Active_step Generating_Query (global_counter wst))
                (wst\<lparr>stop_reads := stop_reads wst + 1\<rparr>))) = None"
    using that by (intro video_step_query_failed) (simp add: truthy_def)
  have cont: "fst (solution_step env u q unit_title question_text wst) = False"
    "fst (video_step env u q question_text wst) = False"
    if "\<not> stop_is_set env (stop_reads wst) \<and> \<not> stop_is_set env (stop_reads wst + 1)"
  proof -
    from that have a: "\<not> stop_is_set env (stop_reads wst)"
      and b: "\<not> stop_is_set env (stop_reads wst + 1)" by blast+
    show "fst (solution_step env u q unit_title question_text wst) = False"
      by (rule solution_step_continues[OF a b])
    show "fst (video_step env u q question_text wst) = False"
      by (rule video_step_continues[OF a b])
  qed
  have defs: "get_detailed_solution env question_text unit_title marks_history wst =
       generate_with_retry env (solution_messages question_text unit_title marks_history)
         (Some 4096) max_retries_default wst"
    "get_youtube_search_query env question_text wst =
       generate_with_retry env (query_messages question_text) None max_retries_default wst"
    by (simp_all only: get_detailed_solution_def get_youtube_search_query_def)
  from generation_trace[OF assms] sol vid cont defs show ?thesis
    by blast
qed

theorem generation_retry_policy_witness:
  "client (initial_state flaky_env) \<noteq> None \<and>
   fst (generate_with_retry flaky_env (query_messages (py ''Q'')) None max_retries_default
          (initial_state flaky_env)) = Some (py ''ok'') \<and>
   sleeps (snd (generate_with_retry flaky_env (query_messages (py ''Q'')) None max_retries_default
          (initial_state flaky_env))) = [1, 20, 5] \<and>
   current_groq_key_index (snd (generate_with_retry flaky_env (query_messages (py ''Q'')) None
          max_retries_default (initial_state flaky_env))) = 0 \<and>
   fst (get_detailed_solution failing_env (py ''Q'') (py ''U'') []
          (put (Active_step Generating_Solution 0)
             ((initial_state failing_env)\<lparr>data := solved_bank, stop_reads := 1\<rparr>))) = None \<and>
   fst (solution_step failing_env 0 0 (py ''U'') (py ''Q'')
          ((initial_state failing_env)\<lparr>data := solved_bank\<rparr>)) = False \<and>
   data (snd (solution_step failing_env 0 0 (py ''U'') (py ''Q'')
          ((initial_state failing_env)\<lparr>data := solved_bank\<rparr>))) = solved_bank"
proof -
  let ?run = "generate_with_retry flaky_env (query_messages (py ''Q'')) None max_retries_default
          (initial_state flaky_env)"
  let ?w = "(initial_state failing_env)\<lparr>data := solved_bank\<rparr>"
  have h: "client (initial_state flaky_env) \<noteq> None"
    by (simp add: initial_state_def flaky_env_def sample_env_def)
  have len: "length (groq_requests (snd ?run)) = 4"
    by (simp add: generate_with_retry_def initial_state_def flaky_env_def sample_env_def
        max_retries_default_def eval_nat_numeral Let_def put_def sleep_def
        switch_groq_api_key_def)
  have rp: "replies flaky_env (initial_state flaky_env) (snd ?run) =
      [RateLimitError, RateLimitError, GroqError, Completion (py '' ok '')]"
    unfolding replies_def len
    by (simp add: initial_state_def flaky_env_def sample_env_def upt_rec)
  have st: "strip (py '' ok '') = py ''ok''"
    by (simp add: strip_def py_def isspace_def)
  note pol = generation_retry_policy[OF h prod.collapse[symmetric],
      where env = flaky_env and messages_list = "query_messages (py ''Q'')" and
        max_tokens = None and max_retries = max_retries_default]
  from pol have "fst ?run \<noteq> None"
    unfolding rp by (simp add: max_retries_default_def)
  moreover from pol have "\<forall>t. fst ?run = Some t \<longrightarrow> t = py ''ok''"
    unfolding rp using st by simp
  moreover from pol have "sleeps (snd ?run) = [1, 20, 5]"
    unfolding rp by (simp add: flaky_env_def sample_env_def initial_state_def)
  moreover from pol have "current_groq_key_index (snd ?run) = 0"
    unfolding rp
    by (simp add: flaky_env_def sample_env_def initial_state_def advance_def eval_nat_numeral)
  ultimately have trace: "fst ?run = Some (py ''ok'') \<and> sleeps (snd ?run) = [1, 20, 5] \<and>
      current_groq_key_index (snd ?run) = 0"
    by auto
  have w: "global_counter ?w = 0" "stop_reads ?w = 0" "data ?w = solved_bank"
    "client ?w \<noteq> None"
    "\<not> stop_is_set failing_env (stop_reads ?w) \<and> \<not> stop_is_set failing_env (stop_reads ?w + 1)"
    by (simp_all add: initial_state_def failing_env_def sample_env_def)
  have hist: "(case history (question_at (data ?w) 0 0) of None \<Rightarrow> [] | Some h \<Rightarrow> h) = []"
    by (simp add: solved_bank_def question_at_def units_of_def questions_of_def)
  have err: "groq_reply failing_env n = GroqError" for n
    by (simp add: failing_env_def)
  have none: "fst (get_detailed_solution failing_env (py ''Q'') (py ''U'')
          (case history (question_at (data ?w) 0 0) of None \<Rightarrow> [] | Some h \<Rightarrow> h)
          (put (Active_step Generating_Solution (global_counter ?w))
             (?w\<lparr>stop_reads := stop_reads ?w + 1\<rparr>))) = None"
    by (simp add: get_detailed_solution_def generate_with_retry_def attempts_all_errors[OF err])
  note caller = generation_retry_policy[OF h prod.collapse[symmetric],
      where env = failing_env and wst = ?w and u = 0 and q = 0 and question_text = "py ''Q''" and
        unit_title = "py ''U''"]
  from caller none w(5)
  have "data (snd (solution_step failing_env 0 0 (py ''U'') (py ''Q'') ?w)) = data ?w \<and>
      fst (solution_step failing_env 0 0 (py ''U'') (py ''Q'') ?w) = False"
    by blast
  moreover from none have "fst (get_detailed_solution failing_env (py ''Q'') (py ''U'') []
          (put (Active_step Generating_Solution 0)
             ((initial_state failing_env)\<lparr>data := solved_bank, stop_reads := 1\<rparr>))) = None"
    unfolding hist by (simp add: w(1,2))
  ultimately show ?thesis
    using h trace w(3) by simp
qed

text \<open>
  Claim C2 as stated fails without a client: the result is \<open>None\<close> although no attempt
  was made, none of the 10.
\<close>

theorem generation_none_counterexample:
  "fst (generate_with_retry unconfigured_env (query_messages (py ''Q'')) None max_retries_default
          (initial_state unconfigured_env)) = None \<and>
   groq_requests (snd (generate_with_retry unconfigured_env (query_messages (py ''Q'')) None
          max_retries_default (initial_state unconfigured_env))) = [] \<and>
   sleeps (snd (generate_with_retry unconfigured_env (query_messages (py ''Q'')) None
          max_retries_default (initial_state unconfigured_env))) = [] \<and>
   max_retries_default = 10"
  by (simp add: generate_with_retry_def initial_state_def unconfigured_env_def sample_env_def
      max_retries_default_def)

section \<open>Fields that are set\<close>

text \<open>
  Claim C7. A run of the walker keeps every video that is set and leaves set every
  solution that is set, for any answers of the two services and any cancellation:
  the document returned \<open>keeps\<close> the document given. Step by step: the video step either
  leaves the document as it is or writes the video of a question that had none; the
  solution step either leaves the document as it is or writes a solution that is not
  empty. So a failed generation or a failed search clears nothing. More precisely, a
  solution step whose generation fails (\<open>None\<close> or an empty text) and a video step whose
  query generation fails leave the whole document as it was.
\<close>

theorem set_fields_are_kept:
  "keeps d (data (process_subject env d st)) \<and>
   (data (snd (video_step env u q t st)) = data st \<or>
    (\<not> truthy_video (video (question_at (data st) u q)) \<and>
     (\<exists>v. data (snd (video_step env u q t st)) =
        assign u q (\<lambda>question. question\<lparr>video := v\<rparr>) (data st)))) \<and>
   (data (snd (solution_step env u q ut t st)) = data st \<or>
    (\<exists>s. s \<noteq> [] \<and> data (snd (solution_step env u q ut t st)) =
       assign u q (\<lambda>question. question\<lparr>solution := Val s\<rparr>) (data st))) \<and>
   (\<not> truthy (fst (get_detailed_solution env t ut
         (case history (question_at (data st) u q) of None \<Rightarrow> [] | Some h \<Rightarrow> h)
         (put (Active_step Generating_Solution (global_counter st))
            (st\<lparr>stop_reads := stop_reads st + 1\<rparr>)))) \<longrightarrow>
      data (snd (solution_step env u q ut t st)) = data st) \<and>
   (\<not> truthy (fst (get_youtube_search_query env t
         (put (Active_step Generating_Query (global_counter st))
            (st\<lparr>stop_reads := stop_reads st + 1\<rparr>)))) \<longrightarrow>
      data (snd (video_step env u q t st)) = data st)"
proof -
  have sol: "data (snd (solution_step env u q ut t st)) = data st"
    if "\<not> truthy (fst (get_detailed_solution env t ut
         (case history (question_at (data st) u q) of None \<Rightarrow> [] | Some h \<Rightarrow> h)
         (put (Active_step Generating_Solution (global_counter st))
            (st\<lparr>stop_reads := stop_reads st + 1\<rparr>))))"
    using solution_step_failed[OF that] by (rule conjunct1)
  have vid: "data (snd (video_step env u q t st)) = data st"
    if "\<not> truthy (fst (get_youtube_search_query env t
         (put (Active_step Generating_Query (global_counter st))
            (st\<lparr>stop_reads := stop_reads st + 1\<rparr>))))"
    using video_step_query_failed[OF that] by (rule conjunct1)
  from sol vid show ?thesis
    by (intro conjI impI process_subject_keeps video_step_data solution_step_data)
qed

theorem set_fields_are_kept_witness:
  "video (question_at solved_bank 0 0) = Val sample_ref \<and>
   truthy_solution (solution (question_at solved_bank 0 0)) \<and>
   video (question_at (data (process_subject flaky_env solved_bank (initial_state flaky_env))) 0 0)
     = Val sample_ref \<and>
   truthy_solution (solution (question_at
     (data (process_subject flaky_env solved_bank (initial_state flaky_env))) 0 0)) \<and>
   \<not> truthy (fst (get_detailed_solution failing_env (py ''Q'') (py ''U'') []
          (put (Active_step Generating_Solution 0)
             ((initial_state failing_env)\<lparr>data := solved_bank, stop_reads := 1\<rparr>)))) \<and>
   data (snd (solution_step failing_env 0 0 (py ''U'') (py ''Q'')
          ((initial_state failing_env)\<lparr>data := solved_bank\<rparr>))) = solved_bank \<and>
   \<not> truthy (fst (get_youtube_search_query failing_env (py ''Q'')
          (put (Active_step Generating_Query 0)
             ((initial_state failing_env)\<lparr>data := sample_bank Missing, stop_reads := 1\<rparr>)))) \<and>
   data (snd (video_step failing_env 0 0 (py ''Q'')
          ((initial_state failing_env)\<lparr>data := sample_bank Missing\<rparr>))) = sample_bank Missing"
proof -
  let ?d = "data (process_subject flaky_env solved_bank (initial_state flaky_env))"
  let ?w = "(initial_state failing_env)\<lparr>data := solved_bank\<rparr>"
  let ?m = "(initial_state failing_env)\<lparr>data := sample_bank Missing\<rparr>"
  have a: "video (question_at solved_bank 0 0) = Val sample_ref"
    "truthy_solution (solution (question_at solved_bank 0 0))"
    by (simp_all add: solved_bank_def question_at_def units_of_def questions_of_def
        truthy_solution_def py_def)
  have b: "0 < length (units_of solved_bank)" "0 < length (questions_of (units_of solved_bank ! 0))"
    by (simp_all add: solved_bank_def units_of_def questions_of_def)
  from set_fields_are_kept[of solved_bank flaky_env "initial_state flaky_env"]
  have "keeps solved_bank ?d" by (rule conjunct1)
  then have "\<forall>u < length (units_of solved_bank).
        length (questions_of (units_of ?d ! u)) = length (questions_of (units_of solved_bank ! u)) \<and>
        (\<forall>q < length (questions_of (units_of solved_bank ! u)).
           (\<forall>v. video (question_at solved_bank u q) = Val v \<longrightarrow> video (question_at ?d u q) = Val v) \<and>
           (truthy_solution (solution (question_at solved_bank u q)) \<longrightarrow>
              truthy_solution (solution (question_at ?d u q))))"
    unfolding keeps_def by (rule conjunct2)
  with b(1) have "\<forall>q < length (questions_of (units_of solved_bank ! 0)).
           (\<forall>v. video (question_at solved_bank 0 q) = Val v \<longrightarrow> video (question_at ?d 0 q) = Val v) \<and>
           (truthy_solution (solution (question_at solved_bank 0 q)) \<longrightarrow>
              truthy_solution (solution (question_at ?d 0 q)))"
    by blast
  with b(2) have "(\<forall>v. video (question_at solved_bank 0 0) = Val v \<longrightarrow> video (question_at ?d 0 0) = Val v) \<and>
           (truthy_solution (solution (question_at solved_bank 0 0)) \<longrightarrow>
              truthy_solution (solution (question_at ?d 0 0)))"
    by blast
  with a have kept: "video (question_at ?d 0 0) = Val sample_ref \<and>
      truthy_solution (solution (question_at ?d 0 0))"
    by blast
  have w: "global_counter ?w = 0" "stop_reads ?w = 0" "data ?w = solved_bank"
    "global_counter ?m = 0" "stop_reads ?m = 0" "data ?m = sample_bank Missing"
    by (simp_all add: initial_state_def)
  have hist: "(case history (question_at (data ?w) 0 0) of None \<Rightarrow> [] | Some h \<Rightarrow> h) = []"
    by (simp add: solved_bank_def question_at_def units_of_def questions_of_def)
  have err: "groq_reply failing_env n = GroqError" for n
    by (simp add: failing_env_def)
  have none: "\<not> truthy (fst (get_detailed_solution failing_env (py ''Q'') (py ''U'')
          (case history (question_at (data ?w) 0 0) of None \<Rightarrow> [] | Some h \<Rightarrow> h)
          (put (Active_step Generating_Solution (global_counter ?w))
             (?w\<lparr>stop_reads := stop_reads ?w + 1\<rparr>))))"
    by (simp add: get_detailed_solution_def generate_with_retry_def attempts_all_errors[OF err]
        truthy_def)
  have noq: "\<not> truthy (fst (get_youtube_search_query failing_env (py ''Q'')
          (put (Active_step Generating_Query (global_counter ?m))
             (?m\<lparr>stop_reads := stop_reads ?m + 1\<rparr>))))"
    by (simp add: get_youtube_search_query_def generate_with_retry_def
        attempts_all_errors[OF err] truthy_def)
  from set_fields_are_kept[where env = failing_env and st = ?w and u = 0 and q = 0 and
      t = "py ''Q''" and ut = "py ''U''"] none
  have s1: "data (snd (solution_step failing_env 0 0 (py ''U'') (py ''Q'') ?w)) = data ?w"
    by blast
  from set_fields_are_kept[where env = failing_env and st = ?m and u = 0 and q = 0 and
      t = "py ''Q''" and ut = "py ''U''"] noq
  have s2: "data (snd (video_step failing_env 0 0 (py ''Q'') ?m)) = data ?m"
    by blast
  from none have n1: "\<not> truthy (fst (get_detailed_solution failing_env (py ''Q'') (py ''U'') []
          (put (Active_step Generating_Solution 0)
             ((initial_state failing_env)\<lparr>data := solved_bank, stop_reads := 1\<rparr>))))"
    unfolding hist by (simp add: w(1,2))
  from noq have n2: "\<not> truthy (fst (get_youtube_search_query failing_env (py ''Q'')
          (put (Active_step Generating_Query 0)
             ((initial_state failing_env)\<lparr>data := sample_bank Missing, stop_reads := 1\<rparr>))))"
    by (simp add: w(4,5))
  from a kept n1 s1 n2 s2 show ?thesis
    by (simp only: w(3) w(6) simp_thms)
qed

section \<open>Comparison questions\<close>

lemma get_detailed_solution_requests:
  "\<forall>request\<in>set (drop (length (groq_requests st))
       (groq_requests (snd (get_detailed_solution env t ut h st)))).
     request = (solution_messages t ut h, Some 4096)"
proof -
  from generate_requests[OF prod.collapse[symmetric], of env "solution_messages t ut h"
      "Some 4096" max_retries_default st]
  obtain n where "groq_requests (snd (get_detailed_solution env t ut h st)) =
      groq_requests st @ replicate n (solution_messages t ut h, Some 4096)"
    by (auto simp: get_detailed_solution_def)
  then show ?thesis by simp
qed

lemma get_detailed_solution_sends:
  assumes "client st \<noteq> None"
  shows "length (groq_requests st) <
       length (groq_requests (snd (get_detailed_solution env t ut h st))) \<and>
     groq_requests (snd (get_detailed_solution env t ut h st)) ! length (groq_requests st) =
       (solution_messages t ut h, Some 4096)"
  using generate_first_request[OF prod.collapse[symmetric] assms,
      of max_retries_default env "solution_messages t ut h" "Some 4096"]
  by (simp add: get_detailed_solution_def max_retries_default_def)

lemma solution_step_sent:
  "\<forall>request\<in>set (drop (length (groq_requests st))
       (groq_requests (snd (solution_step env u q ut t st)))).
     request = (solution_messages t ut
        (case history (question_at (data st) u q) of None \<Rightarrow> [] | Some h \<Rightarrow> h), Some 4096)"
proof -
  from solution_step_requests[of env u q ut t st] obtain n where
    "groq_requests (snd (solution_step env u q ut t st)) =
      groq_requests st @ replicate n (solution_messages t ut
        (case history (question_at (data st) u q) of None \<Rightarrow> [] | Some h \<Rightarrow> h), Some 4096)"
    by blast
  then show ?thesis by simp
qed

lemma system_message:
  "solution_messages t ut h ! 0 =
     \<lparr>role = System,
      content = core_rules @ (if is_comparison_question t then table_instruction else [])\<rparr>"
  by (simp add: solution_messages_def system_prompt_def)

text \<open>
  Claim C9. The detector is true exactly when the lowered question text contains one of
  the keywords of the fixed list. When it does, the system prompt of the solution
  request is the core rules followed by the table instruction; when it does not, the
  system prompt is the core rules alone and the table instruction does not occur in
  it. A text containing \<^verbatim>\<open>difference between X and Y\<close> is detected. These messages
  are the ones sent: every request that \<^verbatim>\<open>get_detailed_solution\<close> sends to the
  generation service carries exactly these messages, with an initialised client at
  least one request is sent, and the first message of every request sent by the
  solution step of the walker is the system prompt, with the table instruction for a
  comparison question and without it otherwise.
\<close>

theorem comparison_table_instruction:
  "(is_comparison_question question_text \<longleftrightarrow>
      (\<exists>keyword\<in>set comparison_keywords. sublist keyword (lower question_text))) \<and>
   ((\<exists>keyword\<in>set comparison_keywords. sublist keyword (lower question_text)) \<longrightarrow>
      solution_messages question_text unit_title marks_history ! 0 =
        \<lparr>role = System, content = core_rules @ table_instruction\<rparr>) \<and>
   (\<not> (\<exists>keyword\<in>set comparison_keywords. sublist keyword (lower question_text)) \<longrightarrow>
      solution_messages question_text unit_title marks_history ! 0 =
        \<lparr>role = System, content = core_rules\<rparr> \<and>
      \<not> sublist table_instruction
          (content (solution_messages question_text unit_title marks_history ! 0))) \<and>
   (sublist (py ''difference between X and Y'') question_text \<longrightarrow>
      is_comparison_question question_text) \<and>
   fst (get_detailed_solution env question_text unit_title marks_history st) =
     fst (generate_with_retry env (solution_messages question_text unit_title marks_history)
            (Some 4096) max_retries_default st) \<and>
   (\<forall>request\<in>set (drop (length (groq_requests st))
        (groq_requests (snd (get_detailed_solution env question_text unit_title
           marks_history st)))).
      request = (solution_messages question_text unit_title marks_history, Some 4096)) \<and>
   (client st \<noteq> None \<longrightarrow>
      length (groq_requests st) <
        length (groq_requests (snd (get_detailed_solution env question_text unit_title
           marks_history st))) \<and>
      fst (groq_requests (snd (get_detailed_solution env question_text unit_title
             marks_history st)) ! length (groq_requests st)) ! 0 =
        \<lparr>role = System,
         content = core_rules @
           (if \<exists>keyword\<in>set comparison_keywords. sublist keyword (lower question_text)
            then table_instruction else [])\<rparr>) \<and>
   (\<forall>request\<in>set (drop (length (groq_requests st))
        (groq_requests (snd (solution_step env u q unit_title question_text st)))).
      fst request ! 0 =
        \<lparr>role = System,
         content = core_rules @
           (if \<exists>keyword\<in>set comparison_keywords. sublist keyword (lower question_text)
            then table_instruction else [])\<rparr>)"
proof -
  have diff: "is_comparison_question question_text"
    if "sublist (py ''difference between X and Y'') question_text"
  proof -
    from that have "sublist (lower (py ''difference between X and Y'')) (lower question_text)"
      unfolding lower_def by (rule map_mono_sublist)
    with lower_difference have "sublist (py ''difference'') (lower question_text)"
      by (rule sublist_order.order_trans)
    then show ?thesis
      by (auto simp: comparison_iff comparison_keywords_def)
  qed
  have prompts: "(is_comparison_question question_text \<longleftrightarrow>
      (\<exists>keyword\<in>set comparison_keywords. sublist keyword (lower question_text))) \<and>
   ((\<exists>keyword\<in>set comparison_keywords. sublist keyword (lower question_text)) \<longrightarrow>
      solution_messages question_text unit_title marks_history ! 0 =
        \<lparr>role = System, content = core_rules @ table_instruction\<rparr>) \<and>
   (\<not> (\<exists>keyword\<in>set comparison_keywords. sublist keyword (lower question_text)) \<longrightarrow>
      solution_messages question_text unit_title marks_history ! 0 =
        \<lparr>role = System, content = core_rules\<rparr> \<and>
      \<not> sublist table_instruction
          (content (solution_messages question_text unit_title marks_history ! 0))) \<and>
   (sublist (py ''difference between X and Y'') question_text \<longrightarrow>
      is_comparison_question question_text) \<and>
   fst (get_detailed_solution env question_text unit_title marks_history st) =
     fst (generate_with_retry env (solution_messages question_text unit_title marks_history)
            (Some 4096) max_retries_default st)"
    using diff instruction_not_in_core_rules
    by (simp add: comparison_iff[symmetric] solution_messages_def system_prompt_def
        get_detailed_solution_def)
  have sent: "client st \<noteq> None \<longrightarrow>
      length (groq_requests st) <
        length (groq_requests (snd (get_detailed_solution env question_text unit_title
           marks_history st))) \<and>
      fst (groq_requests (snd (get_detailed_solution env question_text unit_title
             marks_history st)) ! length (groq_requests st)) ! 0 =
        \<lparr>role = System,
         content = core_rules @
           (if \<exists>keyword\<in>set comparison_keywords. sublist keyword (lower question_text)
            then table_instruction else [])\<rparr>"
    using get_detailed_solution_sends[of st env question_text unit_title marks_history]
    by (simp add: system_message comparison_iff)
  have walk: "\<forall>request\<in>set (drop (length (groq_requests st))
        (groq_requests (snd (solution_step env u q unit_title question_text st)))).
      fst request ! 0 =
        \<lparr>role = System,
         content = core_rules @
           (if \<exists>keyword\<in>set comparison_keywords. sublist keyword (lower question_text)
            then table_instruction else [])\<rparr>"
  proof
    fix request
    assume "request \<in> set (drop (length (groq_requests st))
        (groq_requests (snd (solution_step env u q unit_title question_text st))))"
    with solution_step_sent[of st env u q unit_title question_text]
    have "fst request = solution_messages question_text unit_title
        (case history (question_at (data st) u q) of None \<Rightarrow> [] | Some h \<Rightarrow> h)"
      by auto
    then show "fst request ! 0 =
        \<lparr>role = System,
         content = core_rules @
           (if \<exists>keyword\<in>set comparison_keywords. sublist keyword (lower question_text)
            then table_instruction else [])\<rparr>"
      by (simp only: system_message comparison_iff)
  qed
  from prompts get_detailed_solution_requests[of st env question_text unit_title marks_history]
    sent walk
  show ?thesis by (intro conjI) (blast | assumption)+
qed

theorem comparison_table_instruction_witness:
  "(\<exists>keyword\<in>set comparison_keywords. sublist keyword (lower (py ''Compare TCP and UDP''))) \<and>
   solution_messages (py ''Compare TCP and UDP'') (py ''U'') [] ! 0 =
     \<lparr>role = System, content = core_rules @ table_instruction\<rparr> \<and>
   \<not> (\<exists>keyword\<in>set comparison_keywords. sublist keyword (lower (py ''Explain TCP''))) \<and>
   solution_messages (py ''Explain TCP'') (py ''U'') [] ! 0 =
     \<lparr>role = System, content = core_rules\<rparr> \<and>
   client (initial_state sample_env) \<noteq> None \<and>
   groq_requests (snd (get_detailed_solution sample_env (py ''Compare TCP and UDP'')
          (py ''U'') [] (initial_state sample_env))) \<noteq> [] \<and>
   fst (groq_requests (snd (get_detailed_solution sample_env (py ''Compare TCP and UDP'')
          (py ''U'') [] (initial_state sample_env))) ! 0) ! 0 =
     \<lparr>role = System, content = core_rules @ table_instruction\<rparr> \<and>
   fst (groq_requests (snd (get_detailed_solution sample_env (py ''Explain TCP'')
          (py ''U'') [] (initial_state sample_env))) ! 0) ! 0 =
     \<lparr>role = System, content = core_rules\<rparr>"
proof -
  let ?s = "initial_state sample_env"
  have a: "\<exists>keyword\<in>set comparison_keywords. sublist keyword (lower (py ''Compare TCP and UDP''))"
    by (simp add: comparison_keywords_def str_in_sublist[symmetric] py_def lower_def lower_char_def)
  have b: "\<not> (\<exists>keyword\<in>set comparison_keywords. sublist keyword (lower (py ''Explain TCP'')))"
    by (simp add: comparison_keywords_def str_in_sublist[symmetric] py_def lower_def lower_char_def)
  have c: "client ?s \<noteq> None" "length (groq_requests ?s) = 0"
    by (simp_all add: initial_state_def sample_env_def)
  note yes = comparison_table_instruction[where question_text = "py ''Compare TCP and UDP''" and
      unit_title = "py ''U''" and marks_history = "[]" and env = sample_env and st = ?s and
      u = 0 and q = 0]
  note no = comparison_table_instruction[where question_text = "py ''Explain TCP''" and
      unit_title = "py ''U''" and marks_history = "[]" and env = sample_env and st = ?s and
      u = 0 and q = 0]
  from yes a have y1: "solution_messages (py ''Compare TCP and UDP'') (py ''U'') [] ! 0 =
     \<lparr>role = System, content = core_rules @ table_instruction\<rparr>" by blast
  from no b have n1: "solution_messages (py ''Explain TCP'') (py ''U'') [] ! 0 =
     \<lparr>role = System, content = core_rules\<rparr>" by blast
  from yes c(1) have "fst (groq_requests (snd (get_detailed_solution sample_env
          (py ''Compare TCP and UDP'') (py ''U'') [] ?s)) ! length (groq_requests ?s)) ! 0 =
        \<lparr>role = System,
         content = core_rules @
           (if \<exists>keyword\<in>set comparison_keywords. sublist keyword (lower (py ''Compare TCP and UDP''))
            then table_instruction else [])\<rparr>" by blast
  with a have y2: "fst (groq_requests (snd (get_detailed_solution sample_env
          (py ''Compare TCP and UDP'') (py ''U'') [] ?s)) ! 0) ! 0 =
     \<lparr>role = System, content = core_rules @ table_instruction\<rparr>"
    unfolding c(2) by (simp only: if_True)
  from no c(1) have "fst (groq_requests (snd (get_detailed_solution sample_env
          (py ''Explain TCP'') (py ''U'') [] ?s)) ! length (groq_requests ?s)) ! 0 =
        \<lparr>role = System,
         content = core_rules @
           (if \<exists>keyword\<in>set comparison_keywords. sublist keyword (lower (py ''Explain TCP''))
            then table_instruction else [])\<rparr>" by blast
  with b have n2: "fst (groq_requests (snd (get_detailed_solution sample_env
          (py ''Explain TCP'') (py ''U'') [] ?s)) ! 0) ! 0 =
     \<lparr>role = System, content = core_rules\<rparr>"
    unfolding c(2) by (simp only: if_False append_Nil2)
  from yes c(1) have "length (groq_requests ?s) <
      length (groq_requests (snd (get_detailed_solution sample_env
          (py ''Compare TCP and UDP'') (py ''U'') [] ?s)))" by blast
  then have y0: "groq_requests (snd (get_detailed_solution sample_env
          (py ''Compare TCP and UDP'') (py ''U'') [] ?s)) \<noteq> []"
    by auto
  from a b c(1) y0 y1 n1 y2 n2 show ?thesis by (intro conjI)
qed

end
